theory Spec2Isabelle
  imports Complex_Main "HOL-Library.AList"
begin

section \<open>Values of the host platform\<close>

text \<open>
  A JavaScript number as far as the widget observes it: the only operations the code
  applies to an index are \<open>isNaN\<close> and strict equality with an array position.
  Finite values are rationals (every array position is represented exactly).
\<close>

datatype number = NaN | Finite rat | PosInfinity | NegInfinity

definition isNaN :: "number \<Rightarrow> bool" where
  "isNaN n = (n = NaN)"

text \<open>\<open>i === index\<close> for an array position \<open>i\<close> handed out by \<open>forEach\<close>/\<open>reduce\<close>.\<close>

fun strict_eq :: "nat \<Rightarrow> number \<Rightarrow> bool" where
  "strict_eq i (Finite q) = (of_nat i = q)"
| "strict_eq i NaN = False"
| "strict_eq i PosInfinity = False"
| "strict_eq i NegInfinity = False"

text \<open>\<open>index.toString()\<close> for an array position: its decimal digits.\<close>

definition digit_char :: "nat \<Rightarrow> char" where
  "digit_char d = char_of (48 + d)"

function toString :: "nat \<Rightarrow> string" where
  "toString n = (if n < 10 then [digit_char n] else toString (n div 10) @ [digit_char (n mod 10)])"
  by pat_completeness auto
termination
  by (relation "measure (\<lambda>n. n)") auto

declare toString.simps [simp del]

section \<open>Elements\<close>

text \<open>
  The widget keeps its elements in the four arrays of \<open>TabElements\<close> and in three
  single fields; a child list refers to an element by the place where it is kept.

  \<open>innerHTML_assigned\<close> is the string that the code last assigned to \<open>innerHTML\<close>.
  The platform parses that string as HTML, and the code interpolates its strings into the
  template without escaping them: what the element then contains, and what \<open>innerHTML\<close>
  reads back, is the parsed markup, which is not computed here.
\<close>

datatype ref =
  TabsRef | TabULRef | ContentRef
| TabItemRef nat | ImageItemRef nat | ButtonItemRef nat | DebugItemRef nat

record element =
  tagName :: string
  classList :: "string list"
  attributes :: "(string \<times> string) list"
  properties :: "(string \<times> string) list"
  style :: "(string \<times> string) list"
  innerHTML_assigned :: string
  children :: "ref list"
  listeners :: "string list"

text \<open>Splitting a string at a separator character; used for class names and style text.\<close>

fun split_on :: "char \<Rightarrow> string \<Rightarrow> string list" where
  "split_on c [] = [[]]"
| "split_on c (x # xs) =
     (if x = c then [] # split_on c xs
      else (case split_on c xs of
              [] \<Rightarrow> [[x]]
            | ys # yss \<Rightarrow> (x # ys) # yss))"

definition trim :: "string \<Rightarrow> string" where
  "trim s = rev (dropWhile (\<lambda>c. c = CHR '' '') (rev (dropWhile (\<lambda>c. c = CHR '' '') s)))"

text \<open>\<open>el.className = s\<close>: the class list is the space-separated tokens of \<open>s\<close>.\<close>

definition class_tokens :: "string \<Rightarrow> string list" where
  "class_tokens s = filter (\<lambda>t. t \<noteq> []) (split_on (CHR '' '') s)"

text \<open>
  \<open>el.style.cssText = s\<close>: the declarations \<open>name: value\<close> of \<open>s\<close>, separated by
  semicolons; a piece without a colon or without a name is dropped.
\<close>

definition parse_declaration :: "string \<Rightarrow> (string \<times> string) option" where
  "parse_declaration d =
     (let name = trim (takeWhile (\<lambda>c. c \<noteq> CHR '':'') d);
          rest = dropWhile (\<lambda>c. c \<noteq> CHR '':'') d
      in if rest = [] \<or> name = [] then None else Some (name, trim (tl rest)))"

definition cssText :: "string \<Rightarrow> (string \<times> string) list" where
  "cssText s =
     foldl (\<lambda>acc d. case parse_declaration d of
                       None \<Rightarrow> acc
                     | Some (k, v) \<Rightarrow> AList.update k v acc)
       [] (split_on (CHR '';'') s)"

text \<open>Reading a style property: the empty string when it is not set.\<close>

definition style_of :: "string \<Rightarrow> element \<Rightarrow> string" where
  "style_of p el = (case map_of (style el) p of None \<Rightarrow> [] | Some v \<Rightarrow> v)"

definition set_style :: "string \<Rightarrow> string \<Rightarrow> element \<Rightarrow> element" where
  "set_style p v el = el\<lparr>style := AList.update p v (style el)\<rparr>"

definition setAttribute :: "string \<Rightarrow> string \<Rightarrow> element \<Rightarrow> element" where
  "setAttribute k v el = el\<lparr>attributes := AList.update k v (attributes el)\<rparr>"

text \<open>\<open>el.dataset.name\<close> reads and writes the attribute \<open>data-name\<close>.\<close>

definition dataset :: "element \<Rightarrow> string \<Rightarrow> string option" where
  "dataset el name = map_of (attributes el) (''data-'' @ name)"

definition set_dataset :: "string \<Rightarrow> string \<Rightarrow> element \<Rightarrow> element" where
  "set_dataset name v el = setAttribute (''data-'' @ name) v el"

definition property :: "string \<Rightarrow> element \<Rightarrow> string option" where
  "property k el = map_of (properties el) k"

text \<open>
  What the page renders of an element: it is visible when its display is not \<open>none\<close>
  and its visibility is not \<open>hidden\<close>.
\<close>

definition visible :: "element \<Rightarrow> bool" where
  "visible el = (style_of ''display'' el \<noteq> ''none'' \<and> style_of ''visibility'' el \<noteq> ''hidden'')"

text \<open>\<open>classList.contains\<close> and \<open>classList.toggle(token, force)\<close>.\<close>

definition contains :: "string \<Rightarrow> element \<Rightarrow> bool" where
  "contains tok el = (tok \<in> set (classList el))"

definition toggle :: "string \<Rightarrow> bool \<Rightarrow> element \<Rightarrow> element" where
  "toggle tok force el =
     (if force
      then (if tok \<in> set (classList el) then el else el\<lparr>classList := classList el @ [tok]\<rparr>)
      else el\<lparr>classList := removeAll tok (classList el)\<rparr>)"

definition appendChild :: "ref \<Rightarrow> element \<Rightarrow> element" where
  "appendChild r parent = parent\<lparr>children := children parent @ [r]\<rparr>"

definition startsWith :: "string \<Rightarrow> string \<Rightarrow> bool" where
  "startsWith p s = (take (length p) s = p)"

subsection \<open>createElement\<close>

definition document_createElement :: "string \<Rightarrow> element" where
  "document_createElement tag =
     \<lparr>tagName = tag, classList = [], attributes = [], properties = [], style = [],
      innerHTML_assigned = [], children = [], listeners = []\<rparr>"

definition apply_attribute :: "element \<Rightarrow> string \<times> string \<Rightarrow> element" where
  "apply_attribute el kv =
     (case kv of (key, v) \<Rightarrow>
        if key = ''style'' then el\<lparr>style := cssText v\<rparr>
        else if startsWith ''data-'' key then setAttribute key v el
        else el\<lparr>properties := AList.update key v (properties el)\<rparr>)"

definition createElement :: "string \<Rightarrow> string \<Rightarrow> (string \<times> string) list \<Rightarrow> element" where
  "createElement tag className attrs =
     foldl apply_attribute
       ((document_createElement tag)\<lparr>classList := class_tokens className\<rparr>) attrs"

section \<open>Configuration\<close>

record TabButtonConfig =
  button_text :: string
  button_url :: string

record TabConfig =
  title :: string
  tab_text :: string
  image_src :: string
  button :: "TabButtonConfig option"

text \<open>The caller's configuration: an absent optional key is \<open>None\<close>.\<close>

record VerticalTabsConfig =
  config_container :: string
  config_position :: "string option"
  config_tabs :: "TabConfig list"
  config_debug :: "bool option"

text \<open>\<open>Required<VerticalTabsConfig>\<close>: the configuration spread over the defaults.\<close>

record Settings =
  container :: string
  position :: string
  tabs :: "TabConfig list"
  debug :: bool

definition settings_of :: "VerticalTabsConfig \<Rightarrow> Settings" where
  "settings_of config =
     \<lparr>container = config_container config,
      position = (case config_position config of None \<Rightarrow> ''left'' | Some p \<Rightarrow> p),
      tabs = config_tabs config,
      debug = (case config_debug config of None \<Rightarrow> False | Some d \<Rightarrow> d)\<rparr>"

section \<open>The builder\<close>

record TabElements =
  wrapper :: element
  tabsEl :: element
  tabUL :: element
  contentEl :: element
  tabItems :: "element list"
  imageItems :: "element list"
  debugItems :: "element list"
  buttonItems :: "element list"

definition createTabItem :: "TabConfig \<Rightarrow> nat \<Rightarrow> element" where
  "createTabItem tab index =
     (set_dataset ''index'' (toString index) (createElement ''li'' ''vt__list-item'' []))
       \<lparr>innerHTML_assigned :=
          [CHR 0x0A] @ ''    <h3 class='' @ [CHR 0x22] @ ''vt__list-item-title'' @ [CHR 0x22] @ ''>''
          @ title tab @ ''</h3>'' @ [CHR 0x0A]
          @ ''    <p class='' @ [CHR 0x22] @ ''vt__list-item-text'' @ [CHR 0x22] @ ''>''
          @ tab_text tab @ ''</p>'' @ [CHR 0x0A] @ ''  ''\<rparr>"

text \<open>
  \<open>createImage(src, parent)\<close> appends the image to \<open>parent\<close>; the image is kept at
  position \<open>i\<close> of \<open>imageItems\<close>, where the caller pushes it.
\<close>

definition createImage :: "string \<Rightarrow> element \<Rightarrow> nat \<Rightarrow> element \<times> element" where
  "createImage src parent i =
     (createElement ''img'' ''vt__image'' [(''src'', src), (''style'', ''display: none'')],
      appendChild (ImageItemRef i) parent)"

definition createButton :: "TabButtonConfig \<Rightarrow> element" where
  "createButton b =
     createElement ''a'' ''vt__tab__button''
       [(''href'', button_url b), (''textContent'', button_text b), (''style'', ''display: none'')]"

definition createDebugOverlay :: "nat \<Rightarrow> string \<Rightarrow> TabButtonConfig option \<Rightarrow> element" where
  "createDebugOverlay index img_src b =
     (set_style ''display'' ''none'' (createElement ''div'' ''vt__debug'' []))
       \<lparr>innerHTML_assigned :=
          ''<strong>Debug Info:</strong><br>Index: '' @ toString index
          @ ''<br>Image: '' @ img_src
          @ ''<br>Button: '' @ (case b of None \<Rightarrow> ''None'' | Some c \<Rightarrow> button_text c)\<rparr>"

text \<open>\<open>tab.button?.text && tab.button?.url\<close>: both present and non-empty.\<close>

definition usable_button :: "TabConfig \<Rightarrow> bool" where
  "usable_button tab =
     (case button tab of None \<Rightarrow> False | Some b \<Rightarrow> button_text b \<noteq> [] \<and> button_url b \<noteq> [])"

definition placeholder :: element where
  "placeholder =
     createElement ''a'' ''vt__tab__button''
       [(''href'', ''#''), (''textContent'', ''Placeholder''),
        (''style'', ''visibility: hidden; display: inline-block;'')]"

text \<open>The callback of \<open>settings.tabs.reduce\<close>; \<open>tabUL\<close> and \<open>contentEl\<close> are captured.\<close>

definition add_tab :: "Settings \<Rightarrow> TabElements \<Rightarrow> TabConfig \<Rightarrow> nat \<Rightarrow> TabElements" where
  "add_tab settings acc tab index =
     (let tabEl = createTabItem tab index;
          acc = acc\<lparr>tabItems := tabItems acc @ [tabEl]\<rparr>;
          (img, content) = createImage (image_src tab) (contentEl acc) index;
          acc = acc\<lparr>contentEl := content, imageItems := imageItems acc @ [img]\<rparr>;
          btn = (if usable_button tab then createButton (the (button tab)) else placeholder);
          acc = acc\<lparr>contentEl := appendChild (ButtonItemRef index) (contentEl acc),
                     buttonItems := buttonItems acc @ [btn]\<rparr>;
          acc = (if debug settings
                 then acc\<lparr>contentEl :=
                            appendChild (DebugItemRef index)
                              (set_style ''position'' ''relative'' (contentEl acc)),
                          debugItems :=
                            debugItems acc @ [createDebugOverlay index (image_src tab) (button tab)]\<rparr>
                 else acc)
      in acc\<lparr>tabUL := appendChild (TabItemRef index) (tabUL acc)\<rparr>)"

text \<open>\<open>Array.prototype.reduce\<close> with the position passed to the callback.\<close>

fun reduce :: "('b \<Rightarrow> 'a \<Rightarrow> nat \<Rightarrow> 'b) \<Rightarrow> 'a list \<Rightarrow> nat \<Rightarrow> 'b \<Rightarrow> 'b" where
  "reduce f [] i acc = acc"
| "reduce f (x # xs) i acc = reduce f xs (Suc i) (f acc x i)"

definition createTabElements :: "Settings \<Rightarrow> TabElements" where
  "createTabElements settings =
     (let wrapper0 = createElement ''div'' ''vt__wrapper'' [(''data-position'', position settings)];
          tabsEl0 = createElement ''div'' ''vt__tabs'' [];
          tabUL0 = createElement ''ul'' ''vt__list'' [];
          contentEl0 = createElement ''div'' ''vt__content'' [];
          tabsEl1 = appendChild TabULRef tabsEl0;
          acc = reduce (add_tab settings) (tabs settings) 0
                  \<lparr>wrapper = wrapper0, tabsEl = tabsEl1, tabUL = tabUL0, contentEl = contentEl0,
                   tabItems = [], imageItems = [], debugItems = [], buttonItems = []\<rparr>
      in acc\<lparr>wrapper :=
               (if position settings = ''left''
                then appendChild ContentRef (appendChild TabsRef wrapper0)
                else appendChild TabsRef (appendChild ContentRef wrapper0))\<rparr>)"

section \<open>Selection\<close>

text \<open>\<open>Array.prototype.forEach\<close> over elements that the callback updates in place.\<close>

fun forEach :: "('a \<Rightarrow> nat \<Rightarrow> 'a) \<Rightarrow> 'a list \<Rightarrow> nat \<Rightarrow> 'a list" where
  "forEach f [] i = []"
| "forEach f (x # xs) i = f x i # forEach f xs (Suc i)"

text \<open>
  Every entry of \<open>buttonItems\<close> and \<open>debugItems\<close> is an element object, so the
  guards \<open>if (el)\<close> of the source always pass.
\<close>

definition selectTab :: "number \<Rightarrow> TabElements \<Rightarrow> TabElements" where
  "selectTab index elements =
     elements
       \<lparr>tabItems := forEach (\<lambda>el i. toggle ''active'' (strict_eq i index) el) (tabItems elements) 0,
        imageItems :=
          forEach (\<lambda>el i. set_style ''display'' (if strict_eq i index then ''block'' else ''none'') el)
            (imageItems elements) 0,
        buttonItems :=
          forEach (\<lambda>el i. set_style ''display'' (if strict_eq i index then ''inline-block'' else ''none'') el)
            (buttonItems elements) 0,
        debugItems :=
          forEach (\<lambda>el i. set_style ''display'' (if strict_eq i index then ''block'' else ''none'') el)
            (debugItems elements) 0\<rparr>"

section \<open>The page\<close>

text \<open>
  A click event as the listener reads it: its target followed by the target's ancestors,
  innermost first. \<open>closest\<close> with a class selector returns the first of them that
  carries the class.
\<close>

record event =
  target :: "element list"

definition closest :: "string \<Rightarrow> element list \<Rightarrow> element option" where
  "closest cls path = find (contains cls) path"

datatype console_call = ConsoleWarn string | ConsoleError string

text \<open>
  A header element is addressed by the widget that keeps it and its position in that
  widget's \<open>tabItems\<close>. A repeating timer of the auto-cycle driver runs
  \<open>() => cycleTabs(tabs)\<close>; it is recorded with the \<open>tabs\<close> it captured.
\<close>

type_synonym tabref = "nat \<times> nat"

record timer =
  timer_id :: nat
  delay :: nat
  callback :: "tabref list"

text \<open>
  The page: every widget created so far, the container selectors that resolve together
  with the widgets appended to each container, the console, and the running interval
  timers with the last timer id handed out.
\<close>

record window =
  widgets :: "TabElements list"
  containers :: "(string \<times> nat list) list"
  console :: "console_call list"
  timers :: "timer list"
  lastTimerId :: nat

definition querySelector :: "string \<Rightarrow> window \<Rightarrow> nat list option" where
  "querySelector sel w = map_of (containers w) sel"

definition setInterval :: "tabref list \<Rightarrow> nat \<Rightarrow> window \<Rightarrow> nat \<times> window" where
  "setInterval cb ms w =
     (let i = Suc (lastTimerId w)
      in (i, w\<lparr>timers := timers w @ [\<lparr>timer_id = i, delay = ms, callback = cb\<rparr>],
               lastTimerId := i\<rparr>))"

text \<open>\<open>clearInterval(undefined)\<close> and clearing an id that is not running do nothing.\<close>

definition clearInterval :: "nat option \<Rightarrow> window \<Rightarrow> window" where
  "clearInterval h w =
     (case h of
        None \<Rightarrow> w
      | Some i \<Rightarrow> w\<lparr>timers := filter (\<lambda>t. timer_id t \<noteq> i) (timers w)\<rparr>)"

subsection \<open>The click listener\<close>

definition attachEventListeners :: "TabElements \<Rightarrow> TabElements" where
  "attachEventListeners elements =
     elements\<lparr>tabUL := (tabUL elements)\<lparr>listeners := listeners (tabUL elements) @ [''click'']\<rparr>\<rparr>"

text \<open>
  The listener that \<open>attachEventListeners\<close> registers on the list of widget \<open>wi\<close>.
  \<open>Number\<close> is the platform's conversion of a string to a number.
\<close>

definition tabUL_onclick :: "(string \<Rightarrow> number) \<Rightarrow> nat \<Rightarrow> event \<Rightarrow> window \<Rightarrow> window" where
  "tabUL_onclick Number wi ev w =
     (case closest ''vt__list-item'' (target ev) of
        None \<Rightarrow> w
      | Some tabEl \<Rightarrow>
          (case dataset tabEl ''index'' of
             None \<Rightarrow> w
           | Some indexStr \<Rightarrow>
               if indexStr = [] then w
               else (let index = Number indexStr
                     in if isNaN index then w
                        else w\<lparr>widgets := (widgets w)[wi := selectTab index (widgets w ! wi)]\<rparr>)))"

text \<open>
  \<open>tab.click()\<close> on header \<open>(wi, i)\<close>: the event bubbles from the header to the list,
  where every registered click listener runs. The ancestors above the wrapper belong to
  the host page and are left out.
\<close>

definition click :: "(string \<Rightarrow> number) \<Rightarrow> tabref \<Rightarrow> window \<Rightarrow> window" where
  "click Number r w =
     (case r of (wi, i) \<Rightarrow>
        (let e = widgets w ! wi;
             ev = \<lparr>target = [tabItems e ! i, tabUL e, tabsEl e, wrapper e]\<rparr>
         in foldl (\<lambda>w' l. if l = ''click'' then tabUL_onclick Number wi ev w' else w')
              w (listeners (tabUL e))))"

subsection \<open>createVerticalTabs\<close>

text \<open>
  The new widget is kept at the next free position of \<open>widgets\<close>; the container holds
  it from \<open>appendChild\<close> on, so the page sees it with the listener attached and tab 0
  selected.
\<close>

definition createVerticalTabs :: "VerticalTabsConfig \<Rightarrow> window \<Rightarrow> window" where
  "createVerticalTabs config w =
     (let settings = settings_of config
      in case querySelector (container settings) w of
           None \<Rightarrow>
             w\<lparr>console := console w @ [ConsoleWarn (''Container '' @ container settings @ '' not found'')]\<rparr>
         | Some ws \<Rightarrow>
             (let elements = createTabElements settings;
                  elements = attachEventListeners elements;
                  elements = selectTab (Finite 0) elements
              in w\<lparr>widgets := widgets w @ [elements],
                    containers := AList.update (container settings) (ws @ [length (widgets w)]) (containers w)\<rparr>))"

subsection \<open>Auto-cycling\<close>

datatype error = TypeError

fun findIndex :: "('a \<Rightarrow> bool) \<Rightarrow> 'a list \<Rightarrow> int" where
  "findIndex P [] = - 1"
| "findIndex P (x # xs) =
     (if P x then 0 else (let r = findIndex P xs in if r < 0 then - 1 else r + 1))"

definition tab_active :: "window \<Rightarrow> tabref \<Rightarrow> bool" where
  "tab_active w r = (case r of (wi, i) \<Rightarrow> contains ''active'' (tabItems (widgets w ! wi) ! i))"

text \<open>
  With no tabs the remainder is \<open>NaN\<close>, \<open>tabs[NaN]\<close> is \<open>undefined\<close> and the call of
  \<open>click\<close> throws. Otherwise \<open>activeIndex + 1\<close> is not negative, where \<open>%\<close> is
  \<open>mod\<close>.
\<close>

definition cycleTabs :: "(string \<Rightarrow> number) \<Rightarrow> tabref list \<Rightarrow> window \<Rightarrow> error + window" where
  "cycleTabs Number tabList w =
     (let activeIndex = findIndex (tab_active w) tabList;
          nextIndex = (activeIndex + 1) mod int (length tabList)
      in if tabList = [] then Inl TypeError
         else Inr (click Number (tabList ! nat nextIndex) w))"

text \<open>
  \<open>container.querySelectorAll(".vt__list-item")\<close>: the headers of the container's
  widgets in document order.
\<close>

definition querySelectorAll :: "nat list \<Rightarrow> window \<Rightarrow> tabref list" where
  "querySelectorAll ws w =
     concat (map (\<lambda>wi. map (\<lambda>i. (wi, i))
                         (filter (\<lambda>i. contains ''vt__list-item'' (tabItems (widgets w ! wi) ! i))
                            [0..<length (tabItems (widgets w ! wi))])) ws)"

text \<open>
  What the two hover listeners and the returned cleanup function share: the captured
  \<open>tabs\<close> and \<open>interval\<close>, and the variable \<open>intervalId\<close>.
\<close>

record driver =
  driver_tabs :: "tabref list"
  driver_interval :: nat
  intervalId :: "nat option"

text \<open>\<open>!intervalId\<close>: \<open>undefined\<close> and \<open>0\<close> are falsy.\<close>

definition falsy :: "nat option \<Rightarrow> bool" where
  "falsy h = (case h of None \<Rightarrow> True | Some i \<Rightarrow> i = 0)"

definition autoCycleTabs :: "string \<Rightarrow> nat option \<Rightarrow> window \<Rightarrow> driver option \<times> window" where
  "autoCycleTabs containerSelector interval_arg w =
     (let interval = (case interval_arg of None \<Rightarrow> 5000 | Some ms \<Rightarrow> ms)
      in case querySelector containerSelector w of
           None \<Rightarrow>
             (None, w\<lparr>console := console w @ [ConsoleWarn (''Container '' @ containerSelector @ '' not found'')]\<rparr>)
         | Some ws \<Rightarrow>
             (let tabList = querySelectorAll ws w
              in if tabList = []
                 then (None, w\<lparr>console := console w @ [ConsoleWarn (''No tabs found in '' @ containerSelector)]\<rparr>)
                 else (case setInterval tabList interval w of
                         (i, w') \<Rightarrow>
                           (Some \<lparr>driver_tabs = tabList, driver_interval = interval, intervalId = Some i\<rparr>, w'))))"

definition mouseenter :: "driver \<Rightarrow> window \<Rightarrow> driver \<times> window" where
  "mouseenter d w = (d\<lparr>intervalId := None\<rparr>, clearInterval (intervalId d) w)"

definition mouseleave :: "driver \<Rightarrow> window \<Rightarrow> driver \<times> window" where
  "mouseleave d w =
     (if falsy (intervalId d)
      then (case setInterval (driver_tabs d) (driver_interval d) w of
              (i, w') \<Rightarrow> (d\<lparr>intervalId := Some i\<rparr>, w'))
      else (d, w))"

text \<open>The function that \<open>autoCycleTabs\<close> returns.\<close>

definition cleanup :: "driver \<Rightarrow> window \<Rightarrow> driver \<times> window" where
  "cleanup d w = (if \<not> falsy (intervalId d) then (d, clearInterval (intervalId d) w) else (d, w))"

text \<open>
  What can happen to a started driver: the pointer enters or leaves the container, the
  caller invokes the cleanup function, or the timer with a given id comes due (a timer
  that has been cleared never fires).
\<close>

datatype driver_event = MouseEnter | MouseLeave | Cleanup | TimerDue nat

definition fire :: "(string \<Rightarrow> number) \<Rightarrow> nat \<Rightarrow> window \<Rightarrow> window" where
  "fire Number i w =
     (case find (\<lambda>t. timer_id t = i) (timers w) of
        None \<Rightarrow> w
      | Some t \<Rightarrow> (case cycleTabs Number (callback t) w of Inl e \<Rightarrow> w | Inr w' \<Rightarrow> w'))"

fun driver_step :: "(string \<Rightarrow> number) \<Rightarrow> driver \<times> window \<Rightarrow> driver_event \<Rightarrow> driver \<times> window" where
  "driver_step Number (d, w) MouseEnter = mouseenter d w"
| "driver_step Number (d, w) MouseLeave = mouseleave d w"
| "driver_step Number (d, w) Cleanup = cleanup d w"
| "driver_step Number (d, w) (TimerDue i) = (d, fire Number i w)"

text \<open>Consecutive ticks of the timer, each a call of \<open>cycleTabs(tabs)\<close>.\<close>

fun ticks :: "(string \<Rightarrow> number) \<Rightarrow> tabref list \<Rightarrow> nat \<Rightarrow> window \<Rightarrow> error + window" where
  "ticks Number tabList 0 w = Inr w"
| "ticks Number tabList (Suc n) w =
     (case cycleTabs Number tabList w of Inl e \<Rightarrow> Inl e | Inr w' \<Rightarrow> ticks Number tabList n w')"

text \<open>The active index that the scan finds after \<open>n\<close> consecutive ticks.\<close>

definition active_after :: "(string \<Rightarrow> number) \<Rightarrow> tabref list \<Rightarrow> nat \<Rightarrow> window \<Rightarrow> error + int" where
  "active_after Number tabList n w =
     (case ticks Number tabList n w of
        Inl e \<Rightarrow> Inl e
      | Inr w' \<Rightarrow> Inr (findIndex (tab_active w') tabList))"

section \<open>Version 1.0.0 (src/lv-vertical-tabs.js)\<close>

text \<open>
  The plain JavaScript file keeps an earlier listener and an earlier auto-cycle driver.
  Its button list holds \<open>null\<close> for a tab without a usable button and it has no debug
  panels.
\<close>

record TabElements_v1 =
  wrapper_v1 :: element
  tabUL_v1 :: element
  contentEl_v1 :: element
  tabItems_v1 :: "element list"
  imageItems_v1 :: "element list"
  buttonItems_v1 :: "element option list"

definition selectTab_v1 :: "number \<Rightarrow> TabElements_v1 \<Rightarrow> TabElements_v1" where
  "selectTab_v1 index elements =
     elements
       \<lparr>tabItems_v1 := forEach (\<lambda>el i. toggle ''active'' (strict_eq i index) el) (tabItems_v1 elements) 0,
        imageItems_v1 :=
          forEach (\<lambda>el i. set_style ''display'' (if strict_eq i index then ''block'' else ''none'') el)
            (imageItems_v1 elements) 0,
        buttonItems_v1 :=
          forEach (\<lambda>el i. case el of
                             None \<Rightarrow> None
                           | Some b \<Rightarrow>
                               Some (set_style ''display''
                                       (if strict_eq i index then ''inline-block'' else ''none'') b))
            (buttonItems_v1 elements) 0\<rparr>"

record page_v1 =
  elements_v1 :: TabElements_v1
  console_v1 :: "console_call list"

text \<open>\<open>Number(undefined)\<close> is \<open>NaN\<close>.\<close>

definition tabUL_onclick_v1 :: "(string \<Rightarrow> number) \<Rightarrow> event \<Rightarrow> page_v1 \<Rightarrow> page_v1" where
  "tabUL_onclick_v1 Number ev p =
     (case closest ''vt__list-item'' (target ev) of
        None \<Rightarrow> p\<lparr>console_v1 := console_v1 p @ [ConsoleWarn ''Clicked outside a tab'']\<rparr>
      | Some tabEl \<Rightarrow>
          (let index = (case dataset tabEl ''index'' of None \<Rightarrow> NaN | Some s \<Rightarrow> Number s)
           in if isNaN index
              then p\<lparr>console_v1 := console_v1 p @ [ConsoleError ''Invalid tab index:'']\<rparr>
              else p\<lparr>elements_v1 := selectTab_v1 index (elements_v1 p)\<rparr>))"

text \<open>
  The driver of version 1.0.0 returns nothing; the model returns what its two hover
  listeners share, to run them.
\<close>

definition autoCycleTabs_v1 :: "string \<Rightarrow> nat option \<Rightarrow> window \<Rightarrow> driver option \<times> window" where
  "autoCycleTabs_v1 containerSelector interval_arg w =
     (let interval = (case interval_arg of None \<Rightarrow> 5000 | Some ms \<Rightarrow> ms)
      in case querySelector containerSelector w of
           None \<Rightarrow>
             (None, w\<lparr>console := console w @ [ConsoleWarn (''Container '' @ containerSelector @ '' not found'')]\<rparr>)
         | Some ws \<Rightarrow>
             (let tabList = querySelectorAll ws w
              in if tabList = []
                 then (None, w\<lparr>console := console w @ [ConsoleWarn (''No tabs found in '' @ containerSelector)]\<rparr>)
                 else (case setInterval tabList interval w of
                         (i, w') \<Rightarrow>
                           (Some \<lparr>driver_tabs = tabList, driver_interval = interval, intervalId = Some i\<rparr>, w'))))"

definition mouseenter_v1 :: "driver \<Rightarrow> window \<Rightarrow> driver \<times> window" where
  "mouseenter_v1 d w = (d, clearInterval (intervalId d) w)"

definition mouseleave_v1 :: "driver \<Rightarrow> window \<Rightarrow> driver \<times> window" where
  "mouseleave_v1 d w =
     (case setInterval (driver_tabs d) (driver_interval d) w of
        (i, w') \<Rightarrow> (d\<lparr>intervalId := Some i\<rparr>, w'))"

section \<open>Invariants\<close>

text \<open>
  What the builder and \<open>attachEventListeners\<close> establish and selection keeps: the list
  carries the one click listener, and the header at position \<open>i\<close> has the class
  \<open>vt__list-item\<close> and stores \<open>i.toString()\<close>, which \<open>Number\<close> reads back as \<open>i\<close>.
\<close>

definition header_ok :: "(string \<Rightarrow> number) \<Rightarrow> nat \<Rightarrow> element \<Rightarrow> bool" where
  "header_ok Number i el =
     (contains ''vt__list-item'' el
      \<and> dataset el ''index'' = Some (toString i)
      \<and> Number (toString i) = Finite (of_nat i))"

definition widget_ok :: "(string \<Rightarrow> number) \<Rightarrow> TabElements \<Rightarrow> bool" where
  "widget_ok Number e =
     (listeners (tabUL e) = [''click'']
      \<and> (\<forall>i<length (tabItems e). header_ok Number i (tabItems e ! i)))"

text \<open>The timer ids of a page are distinct and none exceeds the last id handed out.\<close>

definition timers_ok :: "window \<Rightarrow> bool" where
  "timers_ok w =
     (distinct (map timer_id (timers w))
      \<and> (\<forall>t\<in>set (timers w). timer_id t \<le> lastTimerId w))"

text \<open>
  What holds of a started driver and the page, where \<open>L\<close> is the last timer id handed
  out before the driver started and \<open>ts0\<close> are the timers that ran then: those timers
  still run, every later timer is the one whose id the driver stores, and a stored id is
  later than \<open>L\<close>.
\<close>

definition driver_inv :: "nat \<Rightarrow> timer list \<Rightarrow> driver \<times> window \<Rightarrow> bool" where
  "driver_inv L ts0 s =
     (case s of (d, w) \<Rightarrow>
        timers_ok w \<and> L \<le> lastTimerId w
        \<and> filter (\<lambda>t. timer_id t \<le> L) (timers w) = ts0
        \<and> (\<forall>t\<in>set (timers w). L < timer_id t \<longrightarrow> intervalId d = Some (timer_id t))
        \<and> (\<forall>i. intervalId d = Some i \<longrightarrow> L < i))"

section \<open>Concrete inputs\<close>

text \<open>
  \<open>Number\<close> on the strings that \<open>createTabItem\<close> stores: a string of decimal
  digits denotes its value, and the empty string denotes 0, as on the platform. Every
  other string is sent to \<open>NaN\<close> here; the platform's \<open>Number\<close> accepts more, which
  is why the listener takes it as a parameter.
\<close>

definition digit_value :: "char \<Rightarrow> nat option" where
  "digit_value c =
     (let n = (of_char c :: nat) in if 48 \<le> n \<and> n \<le> 57 then Some (n - 48) else None)"

fun digits_value :: "nat \<Rightarrow> string \<Rightarrow> nat option" where
  "digits_value acc [] = Some acc"
| "digits_value acc (c # cs) =
     (case digit_value c of None \<Rightarrow> None | Some d \<Rightarrow> digits_value (10 * acc + d) cs)"

definition Number_of_digits :: "string \<Rightarrow> number" where
  "Number_of_digits s =
     (case digits_value 0 s of None \<Rightarrow> NaN | Some n \<Rightarrow> Finite (of_nat n))"

definition tab_A :: TabConfig where
  "tab_A = \<lparr>title = ''A'', tab_text = ''first'', image_src = ''a.png'',
            button = Some \<lparr>button_text = ''Learn More'', button_url = ''/a''\<rparr>\<rparr>"

definition tab_B :: TabConfig where
  "tab_B = \<lparr>title = ''B'', tab_text = ''second'', image_src = ''b.png'', button = None\<rparr>"

definition tab_C :: TabConfig where
  "tab_C = \<lparr>title = ''C'', tab_text = ''third'', image_src = ''c.png'',
            button = Some \<lparr>button_text = ''Go'', button_url = []\<rparr>\<rparr>"

definition config_x :: VerticalTabsConfig where
  "config_x = \<lparr>config_container = ''#x'', config_position = None,
               config_tabs = [tab_A, tab_B, tab_C], config_debug = Some True\<rparr>"

definition config_y :: VerticalTabsConfig where
  "config_y = \<lparr>config_container = ''#x'', config_position = Some ''sideways'',
               config_tabs = [], config_debug = None\<rparr>"

definition page_x :: window where
  "page_x = \<lparr>widgets = [], containers = [(''#x'', [])], console = [], timers = [], lastTimerId = 0\<rparr>"

text \<open>
  The example page after \<open>createVerticalTabs\<close>, its three headers, and the page and the
  driver after \<open>autoCycleTabs("#x", 3000)\<close>.
\<close>

definition page_x1 :: window where
  "page_x1 = createVerticalTabs config_x page_x"

definition tabs_x :: "tabref list" where
  "tabs_x = [(0, 0), (0, 1), (0, 2)]"

definition driver_x :: driver where
  "driver_x = \<lparr>driver_tabs = tabs_x, driver_interval = 3000, intervalId = Some 1\<rparr>"

definition page_x2 :: window where
  "page_x2 = page_x1\<lparr>timers := [\<lparr>timer_id = 1, delay = 3000, callback = tabs_x\<rparr>],
                     lastTimerId := 1\<rparr>"

text \<open>
  Two pages that \<open>createVerticalTabs\<close> does not produce: the example widget with its
  listener but before any selection, and the example widget as \<open>createTabElements\<close>
  returns it, without a listener.
\<close>

definition page_unselected :: window where
  "page_unselected =
     page_x\<lparr>widgets := [attachEventListeners (createTabElements (settings_of config_x))],
            containers := [(''#x'', [0])]\<rparr>"

definition page_bare :: window where
  "page_bare =
     page_x\<lparr>widgets := [createTabElements (settings_of config_x)],
            containers := [(''#x'', [0])]\<rparr>"

text \<open>
  Two widgets of two tabs each in the one container \<open>#x\<close>, and the four headers that
  \<open>querySelectorAll\<close> finds there.
\<close>

definition config_two :: VerticalTabsConfig where
  "config_two = \<lparr>config_container = ''#x'', config_position = None,
                 config_tabs = [tab_A, tab_B], config_debug = None\<rparr>"

definition page_two :: window where
  "page_two = createVerticalTabs config_two (createVerticalTabs config_two page_x)"

definition tabs_two :: "tabref list" where
  "tabs_two = [(0, 0), (0, 1), (1, 0), (1, 1)]"

text \<open>A widget whose first tab has no button.\<close>

definition config_z :: VerticalTabsConfig where
  "config_z = \<lparr>config_container = ''#x'', config_position = None,
               config_tabs = [tab_B, tab_A], config_debug = None\<rparr>"

text \<open>A header that stores the empty string as its index.\<close>

definition blank_header :: element where
  "blank_header = set_dataset ''index'' [] (createElement ''li'' ''vt__list-item'' [])"

text \<open>A widget of version 1.0.0 with two tabs, the second without a button.\<close>

definition page_v1_x :: page_v1 where
  "page_v1_x =
     \<lparr>elements_v1 =
        \<lparr>wrapper_v1 = createElement ''div'' ''vt__wrapper'' [(''data-position'', ''left'')],
         tabUL_v1 = createElement ''ul'' ''vt__list'' [],
         contentEl_v1 = createElement ''div'' ''vt__content'' [],
         tabItems_v1 = [createTabItem tab_A 0, createTabItem tab_B 1],
         imageItems_v1 =
           [createElement ''img'' ''vt__image'' [(''src'', ''a.png''), (''style'', ''display: none'')],
            createElement ''img'' ''vt__image'' [(''src'', ''b.png''), (''style'', ''display: none'')]],
         buttonItems_v1 =
           [Some (createButton \<lparr>button_text = ''Learn More'', button_url = ''/a''\<rparr>), None]\<rparr>,
      console_v1 = []\<rparr>"

text \<open>A header whose stored index is not a number.\<close>

definition stray_header :: element where
  "stray_header = set_dataset ''index'' ''abc'' (createElement ''li'' ''vt__list-item'' [])"

section \<open>Properties\<close>

subsection \<open>Platform helpers\<close>

lemma cssText_display_none: "cssText ''display: none'' = [(''display'', ''none'')]"
  by (simp add: cssText_def parse_declaration_def trim_def)

lemma cssText_placeholder:
  "cssText ''visibility: hidden; display: inline-block;'' =
     [(''visibility'', ''hidden''), (''display'', ''inline-block'')]"
  by (simp add: cssText_def parse_declaration_def trim_def)

lemma createElement_nil:
  "createElement tag cn [] = (document_createElement tag)\<lparr>classList := class_tokens cn\<rparr>"
  by (simp add: createElement_def)

lemma forEach_length [simp]: "length (forEach f xs i) = length xs"
  by (induction xs arbitrary: i) simp_all

lemma forEach_nth: "j < length xs \<Longrightarrow> forEach f xs i ! j = f (xs ! j) (i + j)"
proof (induction xs arbitrary: i j)
  case Nil
  then show ?case by simp
next
  case (Cons x xs)
  then show ?case by (cases j) simp_all
qed

lemma style_of_set_style [simp]: "style_of p (set_style p v el) = v"
  by (simp add: style_of_def set_style_def AList.update_conv')

lemma style_of_set_style_other: "p \<noteq> q \<Longrightarrow> style_of p (set_style q v el) = style_of p el"
  by (simp add: style_of_def set_style_def AList.update_conv')

lemma contains_toggle [simp]: "contains tok (toggle tok force el) = force"
  by (simp add: contains_def toggle_def)

lemma contains_toggle_other: "t \<noteq> tok \<Longrightarrow> contains t (toggle tok force el) = contains t el"
  by (simp add: contains_def toggle_def)

subsection \<open>The reduce of the builder\<close>

lemma add_tab_tabItems: "tabItems (add_tab s acc t i) = tabItems acc @ [createTabItem t i]"
  by (simp add: add_tab_def Let_def split: prod.splits)

lemma add_tab_imageItems:
  "imageItems (add_tab s acc t i) = imageItems acc @ [fst (createImage (image_src t) (contentEl acc) i)]"
  by (simp add: add_tab_def Let_def split: prod.splits)

lemma add_tab_buttonItems:
  "buttonItems (add_tab s acc t i) =
     buttonItems acc @ [if usable_button t then createButton (the (button t)) else placeholder]"
  by (simp add: add_tab_def Let_def split: prod.splits)

lemma add_tab_debugItems:
  "debugItems (add_tab s acc t i) =
     debugItems acc @ (if debug s then [createDebugOverlay i (image_src t) (button t)] else [])"
  by (simp add: add_tab_def Let_def split: prod.splits)

lemma add_tab_wrapper: "wrapper (add_tab s acc t i) = wrapper acc"
  by (simp add: add_tab_def Let_def split: prod.splits)

lemma add_tab_tabsEl: "tabsEl (add_tab s acc t i) = tabsEl acc"
  by (simp add: add_tab_def Let_def split: prod.splits)


lemma add_tab_contentEl_children: "\<exists>rs. children (contentEl (add_tab s acc t i)) = children (contentEl acc) @ rs"
  by (simp add: add_tab_def Let_def createImage_def appendChild_def set_style_def split: prod.splits)

lemma reduce_tabItems:
  "tabItems (reduce (add_tab s) ts i acc) =
     tabItems acc @ map (\<lambda>(t, j). createTabItem t j) (zip ts [i..<i + length ts])"
proof (induction ts arbitrary: i acc)
  case Nil
  then show ?case by simp
next
  case (Cons t ts)
  have "[i..<i + length (t # ts)] = i # [Suc i..<Suc i + length ts]"
    by (simp add: upt_rec)
  then show ?case by (simp add: Cons.IH add_tab_tabItems)
qed

lemma reduce_imageItems_length:
  "length (imageItems (reduce (add_tab s) ts i acc)) = length (imageItems acc) + length ts"
  by (induction ts arbitrary: i acc) (simp_all add: add_tab_imageItems)

lemma reduce_buttonItems:
  "buttonItems (reduce (add_tab s) ts i acc) =
     buttonItems acc @
     map (\<lambda>t. if usable_button t then createButton (the (button t)) else placeholder) ts"
  by (induction ts arbitrary: i acc) (simp_all add: add_tab_buttonItems)

lemma reduce_debugItems:
  "debugItems (reduce (add_tab s) ts i acc) =
     debugItems acc @
     (if debug s
      then map (\<lambda>(t, j). createDebugOverlay j (image_src t) (button t)) (zip ts [i..<i + length ts])
      else [])"
proof (induction ts arbitrary: i acc)
  case Nil
  then show ?case by simp
next
  case (Cons t ts)
  have "[i..<i + length (t # ts)] = i # [Suc i..<Suc i + length ts]"
    by (simp add: upt_rec)
  then show ?case by (simp add: Cons.IH add_tab_debugItems)
qed

lemma reduce_wrapper: "wrapper (reduce (add_tab s) ts i acc) = wrapper acc"
  by (induction ts arbitrary: i acc) (simp_all add: add_tab_wrapper)

lemma reduce_tabsEl: "tabsEl (reduce (add_tab s) ts i acc) = tabsEl acc"
  by (induction ts arbitrary: i acc) (simp_all add: add_tab_tabsEl)

lemma createTabElements_tabItems:
  "tabItems (createTabElements s) =
     map (\<lambda>(t, j). createTabItem t j) (zip (tabs s) [0..<length (tabs s)])"
  by (simp add: createTabElements_def Let_def reduce_tabItems)

lemma createTabElements_buttonItems:
  "buttonItems (createTabElements s) =
     map (\<lambda>t. if usable_button t then createButton (the (button t)) else placeholder) (tabs s)"
  by (simp add: createTabElements_def Let_def reduce_buttonItems)

lemma createTabElements_debugItems:
  "debugItems (createTabElements s) =
     (if debug s
      then map (\<lambda>(t, j). createDebugOverlay j (image_src t) (button t))
             (zip (tabs s) [0..<length (tabs s)])
      else [])"
  by (simp add: createTabElements_def Let_def reduce_debugItems)

lemma createTabElements_imageItems_length:
  "length (imageItems (createTabElements s)) = length (tabs s)"
  by (simp add: createTabElements_def Let_def reduce_imageItems_length)

subsection \<open>Shape of the built widget\<close>

lemma createTabElements_shape:
  "length (tabItems (createTabElements s)) = length (tabs s)"
  "length (imageItems (createTabElements s)) = length (tabs s)"
  "length (buttonItems (createTabElements s)) = length (tabs s)"
  "length (debugItems (createTabElements s)) = (if debug s then length (tabs s) else 0)"
  by (simp_all add: createTabElements_tabItems createTabElements_imageItems_length
      createTabElements_buttonItems createTabElements_debugItems)

text \<open>
  C2: for every configuration with N tabs the structure returned by
  \<open>createTabElements\<close> has N tab items, N images and N buttons (a button entry for
  every tab, usable button or not), and its debug list has length 0 when debug is
  disabled and N when it is enabled; N may be 0.
\<close>

theorem createTabElements_lengths:
  "length (tabItems (createTabElements s)) = length (tabs s)
   \<and> length (imageItems (createTabElements s)) = length (tabs s)
   \<and> length (buttonItems (createTabElements s)) = length (tabs s)
   \<and> length (debugItems (createTabElements s)) = (if debug s then length (tabs s) else 0)"
  by (simp add: createTabElements_shape)

lemma strict_eq_of_int: "strict_eq i (Finite (of_int k)) = (int i = k)"
proof -
  have "(of_nat i = (of_int k :: rat)) = (of_int (int i) = (of_int k :: rat))"
    by simp
  also have "\<dots> = (int i = k)"
    by (rule of_int_eq_iff)
  finally show ?thesis by simp
qed

subsection \<open>What selectTab changes\<close>

lemma selectTab_lengths [simp]:
  "length (tabItems (selectTab ix e)) = length (tabItems e)"
  "length (imageItems (selectTab ix e)) = length (imageItems e)"
  "length (buttonItems (selectTab ix e)) = length (buttonItems e)"
  "length (debugItems (selectTab ix e)) = length (debugItems e)"
  by (simp_all add: selectTab_def)

lemma selectTab_frame [simp]:
  "wrapper (selectTab ix e) = wrapper e"
  "tabsEl (selectTab ix e) = tabsEl e"
  "tabUL (selectTab ix e) = tabUL e"
  "contentEl (selectTab ix e) = contentEl e"
  by (simp_all add: selectTab_def)

lemma selectTab_active:
  "i < length (tabItems e) \<Longrightarrow>
     contains ''active'' (tabItems (selectTab ix e) ! i) = strict_eq i ix"
  by (simp add: selectTab_def forEach_nth)

lemma selectTab_image:
  "i < length (imageItems e) \<Longrightarrow>
     style_of ''display'' (imageItems (selectTab ix e) ! i) =
       (if strict_eq i ix then ''block'' else ''none'')"
  by (simp add: selectTab_def forEach_nth)

lemma selectTab_button:
  "i < length (buttonItems e) \<Longrightarrow>
     style_of ''display'' (buttonItems (selectTab ix e) ! i) =
       (if strict_eq i ix then ''inline-block'' else ''none'')"
  by (simp add: selectTab_def forEach_nth)

lemma selectTab_debug:
  "i < length (debugItems e) \<Longrightarrow>
     style_of ''display'' (debugItems (selectTab ix e) ! i) =
       (if strict_eq i ix then ''block'' else ''none'')"
  by (simp add: selectTab_def forEach_nth)

lemma selections_lengths:
  "length (tabItems (foldl (\<lambda>e j. selectTab j e) e js)) = length (tabItems e)
   \<and> length (imageItems (foldl (\<lambda>e j. selectTab j e) e js)) = length (imageItems e)
   \<and> length (buttonItems (foldl (\<lambda>e j. selectTab j e) e js)) = length (buttonItems e)
   \<and> length (debugItems (foldl (\<lambda>e j. selectTab j e) e js)) = length (debugItems e)"
  by (induction js arbitrary: e) simp_all

lemma selected_widget:
  assumes "i < length (tabItems e)" "length (imageItems e) = length (tabItems e)"
    "length (buttonItems e) = length (tabItems e)"
  shows "contains ''active'' (tabItems (selectTab (Finite (of_int k)) e) ! i) = (int i = k)
       \<and> style_of ''display'' (imageItems (selectTab (Finite (of_int k)) e) ! i) =
           (if int i = k then ''block'' else ''none'')
       \<and> style_of ''display'' (buttonItems (selectTab (Finite (of_int k)) e) ! i) =
           (if int i = k then ''inline-block'' else ''none'')
       \<and> (length (debugItems e) = length (tabItems e) \<longrightarrow>
            style_of ''display'' (debugItems (selectTab (Finite (of_int k)) e) ! i) =
              (if int i = k then ''block'' else ''none''))"
  using assms
  by (simp add: selectTab_active selectTab_image selectTab_button selectTab_debug
      strict_eq_of_int del: strict_eq.simps)

text \<open>
  C1: for a widget built from N tabs, in whatever state earlier selections left it, and
  every integer index k, after \<open>selectTab(k, elements)\<close> every position i below N
  has: header i carries the class active iff i = k; image i has display block iff i = k,
  else none; button i has display inline-block iff i = k, else none; and with debug
  panels, panel i has display block iff i = k, else none. For k outside [0, N) no header
  is active and every image, button and panel has display none.
\<close>

theorem selectTab_marks_exactly_index:
  assumes "i < length (tabs settings)"
  shows "let w = selectTab (Finite (of_int k))
                   (foldl (\<lambda>e j. selectTab j e) (createTabElements settings) js)
         in contains ''active'' (tabItems w ! i) = (int i = k)
          \<and> style_of ''display'' (imageItems w ! i) = (if int i = k then ''block'' else ''none'')
          \<and> style_of ''display'' (buttonItems w ! i) =
              (if int i = k then ''inline-block'' else ''none'')
          \<and> (debug settings \<longrightarrow>
               style_of ''display'' (debugItems w ! i) = (if int i = k then ''block'' else ''none''))
          \<and> (k < 0 \<or> int (length (tabs settings)) \<le> k \<longrightarrow>
               \<not> contains ''active'' (tabItems w ! i)
               \<and> style_of ''display'' (imageItems w ! i) = ''none''
               \<and> style_of ''display'' (buttonItems w ! i) = ''none''
               \<and> (debug settings \<longrightarrow> style_of ''display'' (debugItems w ! i) = ''none''))"
proof -
  let ?e = "foldl (\<lambda>e j. selectTab j e) (createTabElements settings) js"
  have len: "length (tabItems ?e) = length (tabs settings)"
    "length (imageItems ?e) = length (tabs settings)"
    "length (buttonItems ?e) = length (tabs settings)"
    "length (debugItems ?e) = (if debug settings then length (tabs settings) else 0)"
    using selections_lengths [of "createTabElements settings" js]
      createTabElements_shape [of settings] by simp_all
  have sel: "contains ''active'' (tabItems (selectTab (Finite (of_int k)) ?e) ! i) = (int i = k)
       \<and> style_of ''display'' (imageItems (selectTab (Finite (of_int k)) ?e) ! i) =
           (if int i = k then ''block'' else ''none'')
       \<and> style_of ''display'' (buttonItems (selectTab (Finite (of_int k)) ?e) ! i) =
           (if int i = k then ''inline-block'' else ''none'')
       \<and> (length (debugItems ?e) = length (tabItems ?e) \<longrightarrow>
            style_of ''display'' (debugItems (selectTab (Finite (of_int k)) ?e) ! i) =
              (if int i = k then ''block'' else ''none''))"
    by (rule selected_widget) (use assms len in simp_all)
  have out: "k < 0 \<or> int (length (tabs settings)) \<le> k \<Longrightarrow> int i \<noteq> k"
    using assms by auto
  show ?thesis
    unfolding Let_def using sel len out by auto
qed

theorem selectTab_marks_exactly_index_witness:
  "contains ''active''
     (tabItems (selectTab (Finite (of_int 1))
        (foldl (\<lambda>e j. selectTab j e) (createTabElements (settings_of config_x)) [Finite 2])) ! 1)
   \<and> style_of ''display''
       (buttonItems (selectTab (Finite (of_int 1))
          (foldl (\<lambda>e j. selectTab j e) (createTabElements (settings_of config_x)) [Finite 2])) ! 1)
       = ''inline-block''
   \<and> style_of ''display''
       (debugItems (selectTab (Finite (of_int 1))
          (foldl (\<lambda>e j. selectTab j e) (createTabElements (settings_of config_x)) [Finite 2])) ! 0)
       = ''none''
   \<and> \<not> contains ''active''
       (tabItems (selectTab (Finite (of_int 7))
          (foldl (\<lambda>e j. selectTab j e) (createTabElements (settings_of config_x)) [])) ! 2)
   \<and> style_of ''display''
       (imageItems (selectTab (Finite (of_int (- 1)))
          (foldl (\<lambda>e j. selectTab j e) (createTabElements (settings_of config_x)) [])) ! 0)
       = ''none''"
  using selectTab_marks_exactly_index [of 1 "settings_of config_x" 1 "[Finite 2]"]
    selectTab_marks_exactly_index [of 0 "settings_of config_x" 1 "[Finite 2]"]
    selectTab_marks_exactly_index [of 2 "settings_of config_x" 7 "[]"]
    selectTab_marks_exactly_index [of 0 "settings_of config_x" "- 1" "[]"]
  by (simp add: settings_of_def config_x_def Let_def)

subsection \<open>Buttons\<close>

lemma createButton_fields:
  "property ''textContent'' (createButton b) = Some (button_text b)"
  "property ''href'' (createButton b) = Some (button_url b)"
  "style_of ''visibility'' (createButton b) = []"
  "style_of ''display'' (createButton b) = ''none''"
  by (simp_all add: createButton_def createElement_def apply_attribute_def startsWith_def
      cssText_display_none document_createElement_def property_def style_of_def)

lemma placeholder_fields:
  "property ''textContent'' placeholder = Some ''Placeholder''"
  "property ''href'' placeholder = Some ''#''"
  "style_of ''visibility'' placeholder = ''hidden''"
  "style_of ''display'' placeholder = ''inline-block''"
  by (simp_all add: placeholder_def createElement_def apply_attribute_def startsWith_def
      cssText_placeholder document_createElement_def property_def style_of_def)

lemma property_set_style [simp]: "property k (set_style p v el) = property k el"
  by (simp add: property_def set_style_def)

lemma selectTab_button_keeps:
  assumes "i < length (buttonItems e)"
  shows "style_of ''visibility'' (buttonItems (selectTab ix e) ! i) =
           style_of ''visibility'' (buttonItems e ! i)"
    and "property k (buttonItems (selectTab ix e) ! i) = property k (buttonItems e ! i)"
  using assms by (simp_all add: selectTab_def forEach_nth style_of_set_style_other)

lemma selections_button_keeps:
  "i < length (buttonItems e) \<Longrightarrow>
     style_of ''visibility'' (buttonItems (foldl (\<lambda>e j. selectTab j e) e js) ! i) =
       style_of ''visibility'' (buttonItems e ! i)
     \<and> property k (buttonItems (foldl (\<lambda>e j. selectTab j e) e js) ! i) =
         property k (buttonItems e ! i)"
proof (induction js arbitrary: e)
  case Nil
  then show ?case by simp
next
  case (Cons j js)
  have "i < length (buttonItems (selectTab j e))"
    using Cons.prems by simp
  from Cons.IH [OF this] show ?case
    using Cons.prems by (simp add: selectTab_button_keeps)
qed

lemma createTabElements_button_nth:
  "i < length (tabs s) \<Longrightarrow>
     buttonItems (createTabElements s) ! i =
       (if usable_button (tabs s ! i) then createButton (the (button (tabs s ! i))) else placeholder)"
  by (simp add: createTabElements_buttonItems)

lemma usable_button_iff:
  "usable_button t = (\<exists>c. button t = Some c \<and> button_text c \<noteq> [] \<and> button_url c \<noteq> [])"
  by (simp add: usable_button_def split: option.splits)

text \<open>
  C4: for the tab at every position i: if its button supplies a non-empty label and a
  non-empty target, the builder makes a link with that label and that target which is
  not hidden and is displayed once its tab is selected. Otherwise the builder makes a
  placeholder link with the text Placeholder and the empty fragment \<open>#\<close> as its
  target, whose visibility is hidden and stays hidden under every sequence of selections,
  while it keeps its place in the button list.
\<close>

theorem createTabElements_button:
  assumes "i < length (tabs settings)"
  shows "let t = tabs settings ! i;
             w = createTabElements settings;
             later = foldl (\<lambda>e j. selectTab j e) w js
         in (case button t of
               Some c \<Rightarrow>
                 if button_text c \<noteq> [] \<and> button_url c \<noteq> []
                 then property ''textContent'' (buttonItems w ! i) = Some (button_text c)
                    \<and> property ''href'' (buttonItems w ! i) = Some (button_url c)
                    \<and> style_of ''visibility'' (buttonItems later ! i) = []
                    \<and> style_of ''display''
                         (buttonItems (selectTab (Finite (of_nat i)) later) ! i) = ''inline-block''
                 else buttonItems w ! i = placeholder
             | None \<Rightarrow> buttonItems w ! i = placeholder)
          \<and> (buttonItems w ! i = placeholder \<longrightarrow>
                property ''textContent'' (buttonItems later ! i) = Some ''Placeholder''
              \<and> property ''href'' (buttonItems later ! i) = Some ''#''
              \<and> style_of ''visibility'' (buttonItems later ! i) = ''hidden''
              \<and> length (buttonItems later) = length (tabs settings))"
proof -
  let ?w = "createTabElements settings"
  let ?later = "foldl (\<lambda>e j. selectTab j e) ?w js"
  have len: "length (buttonItems ?w) = length (tabs settings)"
    using createTabElements_shape [of settings] by simp
  have len': "length (buttonItems ?later) = length (tabs settings)"
    using selections_lengths [of ?w js] len by simp
  have i: "i < length (buttonItems ?w)"
    using assms len by simp
  have keep: "style_of ''visibility'' (buttonItems ?later ! i) = style_of ''visibility'' (buttonItems ?w ! i)"
    "\<And>k. property k (buttonItems ?later ! i) = property k (buttonItems ?w ! i)"
    using selections_button_keeps [OF i] by simp_all
  have shown: "style_of ''display'' (buttonItems (selectTab (Finite (of_nat i)) ?later) ! i) = ''inline-block''"
    using assms len' by (simp add: selectTab_button)
  have nth: "buttonItems ?w ! i =
      (if usable_button (tabs settings ! i) then createButton (the (button (tabs settings ! i)))
       else placeholder)"
    using assms by (rule createTabElements_button_nth)
  show ?thesis
    unfolding Let_def
    using nth keep shown len'
    by (auto simp: usable_button_def createButton_fields placeholder_fields split: option.splits)
qed


theorem createTabElements_button_witness:
  "property ''textContent'' (buttonItems (createTabElements (settings_of config_x)) ! 0) = Some ''Learn More''
   \<and> property ''href'' (buttonItems (createTabElements (settings_of config_x)) ! 0) = Some ''/a''
   \<and> style_of ''display''
        (buttonItems (selectTab (Finite (of_nat 0))
           (foldl (\<lambda>e j. selectTab j e) (createTabElements (settings_of config_x)) [Finite 1])) ! 0)
        = ''inline-block''
   \<and> buttonItems (createTabElements (settings_of config_x)) ! 1 = placeholder
   \<and> style_of ''visibility''
        (buttonItems (foldl (\<lambda>e j. selectTab j e) (createTabElements (settings_of config_x)) [Finite 1]) ! 1)
        = ''hidden''
   \<and> property ''href''
        (buttonItems (foldl (\<lambda>e j. selectTab j e) (createTabElements (settings_of config_x)) [Finite 1]) ! 1)
        = Some ''#''
   \<and> buttonItems (createTabElements (settings_of config_x)) ! 2 = placeholder
   \<and> property ''textContent''
        (buttonItems (foldl (\<lambda>e j. selectTab j e) (createTabElements (settings_of config_x)) [Finite 1]) ! 2)
        = Some ''Placeholder''"
  using createTabElements_button [of 0 "settings_of config_x" "[Finite 1]"]
    createTabElements_button [of 1 "settings_of config_x" "[Finite 1]"]
    createTabElements_button [of 2 "settings_of config_x" "[Finite 1]"]
  by (simp add: settings_of_def config_x_def tab_A_def tab_B_def tab_C_def Let_def)

subsection \<open>Debug panels\<close>


lemma createTabElements_debug_nth:
  "debug s \<Longrightarrow> i < length (tabs s) \<Longrightarrow>
     debugItems (createTabElements s) ! i =
       createDebugOverlay i (image_src (tabs s ! i)) (button (tabs s ! i))"
  by (simp add: createTabElements_debugItems)






subsection \<open>createVerticalTabs\<close>

lemma settings_of_fields [simp]:
  "container (settings_of config) = config_container config"
  "tabs (settings_of config) = config_tabs config"
  "position (settings_of config) = (case config_position config of None \<Rightarrow> ''left'' | Some p \<Rightarrow> p)"
  "debug (settings_of config) = (case config_debug config of None \<Rightarrow> False | Some d \<Rightarrow> d)"
  by (simp_all add: settings_of_def)

lemma attachEventListeners_fields [simp]:
  "wrapper (attachEventListeners e) = wrapper e"
  "tabsEl (attachEventListeners e) = tabsEl e"
  "contentEl (attachEventListeners e) = contentEl e"
  "tabItems (attachEventListeners e) = tabItems e"
  "imageItems (attachEventListeners e) = imageItems e"
  "buttonItems (attachEventListeners e) = buttonItems e"
  "debugItems (attachEventListeners e) = debugItems e"
  by (simp_all add: attachEventListeners_def)

lemma createVerticalTabs_found:
  "querySelector (config_container config) w = Some ws \<Longrightarrow>
     widgets (createVerticalTabs config w) =
       widgets w @ [selectTab (Finite 0) (attachEventListeners (createTabElements (settings_of config)))]
     \<and> containers (createVerticalTabs config w) =
         AList.update (config_container config) (ws @ [length (widgets w)]) (containers w)
     \<and> console (createVerticalTabs config w) = console w
     \<and> timers (createVerticalTabs config w) = timers w
     \<and> lastTimerId (createVerticalTabs config w) = lastTimerId w"
  by (simp add: createVerticalTabs_def Let_def)

lemma createTabElements_wrapper:
  "dataset (wrapper (createTabElements s)) ''position'' = Some (position s)"
  "children (wrapper (createTabElements s)) =
     (if position s = ''left'' then [TabsRef, ContentRef] else [ContentRef, TabsRef])"
  by (simp_all add: createTabElements_def Let_def createElement_def apply_attribute_def
      startsWith_def setAttribute_def document_createElement_def appendChild_def dataset_def)

text \<open>
  C10: when the container resolves and the configuration supplies the position string p,
  the root wrapper of the new widget records p unchanged in its attribute data-position,
  whatever string p is, and its children are the tabs block followed by the content block
  exactly when p is the string left; for every other p the content block comes first.
\<close>

theorem createVerticalTabs_position:
  assumes "querySelector (config_container config) w = Some ws"
    and "config_position config = Some p"
  shows "let e = last (widgets (createVerticalTabs config w))
         in dataset (wrapper e) ''position'' = Some p
          \<and> children (wrapper e) =
              (if p = ''left'' then [TabsRef, ContentRef] else [ContentRef, TabsRef])"
  using assms
  by (simp add: createVerticalTabs_found createTabElements_wrapper Let_def)

theorem createVerticalTabs_position_witness:
  "dataset (wrapper (last (widgets (createVerticalTabs config_y page_x)))) ''position''
     = Some ''sideways''
   \<and> children (wrapper (last (widgets (createVerticalTabs config_y page_x))))
     = [ContentRef, TabsRef]
   \<and> children (wrapper (last (widgets
        (createVerticalTabs (config_y\<lparr>config_position := Some ''left''\<rparr>) page_x))))
     = [TabsRef, ContentRef]
   \<and> children (wrapper (last (widgets
        (createVerticalTabs (config_y\<lparr>config_position := Some ''right''\<rparr>) page_x))))
     = [ContentRef, TabsRef]"
  using createVerticalTabs_position [of config_y page_x "[]" "''sideways''"]
    createVerticalTabs_position [of "config_y\<lparr>config_position := Some ''left''\<rparr>" page_x "[]" "''left''"]
    createVerticalTabs_position [of "config_y\<lparr>config_position := Some ''right''\<rparr>" page_x "[]" "''right''"]
  by (simp add: config_y_def page_x_def querySelector_def Let_def)

subsection \<open>Initial selection\<close>

lemma selectTab_empty:
  "tabItems e = [] \<Longrightarrow> imageItems e = [] \<Longrightarrow> buttonItems e = [] \<Longrightarrow> debugItems e = [] \<Longrightarrow>
     selectTab ix e = e"
  by (cases e) (simp add: selectTab_def)

lemma filter_upt_only_zero:
  assumes "0 < n" and "\<And>i. i < n \<Longrightarrow> P i = (i = 0)"
  shows "filter P [0..<n] = [0]"
proof -
  have "filter P [0..<n] = filter (\<lambda>i. i = 0) [0..<n]"
    by (rule filter_cong) (use assms(2) in auto)
  also have "\<dots> = [0]"
  proof -
    have "[0..<n] = 0 # [Suc 0..<n]"
      using assms(1) by (simp add: upt_rec)
    moreover have "filter (\<lambda>i. i = 0) [Suc 0..<n] = []"
      by (simp add: filter_empty_conv)
    ultimately show ?thesis by simp
  qed
  finally show ?thesis .
qed

subsection \<open>What is visible after the initial selection\<close>

lemma createImage_fst:
  "fst (createImage src parent i) =
     createElement ''img'' ''vt__image'' [(''src'', src), (''style'', ''display: none'')]"
  by (simp add: createImage_def)

lemma reduce_imageItems:
  "imageItems (reduce (add_tab s) ts i acc) =
     imageItems acc @
     map (\<lambda>t. createElement ''img'' ''vt__image''
                  [(''src'', image_src t), (''style'', ''display: none'')]) ts"
  by (induction ts arbitrary: i acc) (simp_all add: add_tab_imageItems createImage_fst)

lemma createTabElements_image_nth:
  "i < length (tabs s) \<Longrightarrow>
     imageItems (createTabElements s) ! i =
       createElement ''img'' ''vt__image''
         [(''src'', image_src (tabs s ! i)), (''style'', ''display: none'')]"
  by (simp add: createTabElements_def Let_def reduce_imageItems)

lemma image_not_hidden:
  "style_of ''visibility''
     (createElement ''img'' ''vt__image'' [(''src'', src), (''style'', ''display: none'')]) = []"
  by (simp add: createElement_def apply_attribute_def startsWith_def cssText_display_none
      document_createElement_def style_of_def)

lemma debug_not_hidden: "style_of ''visibility'' (createDebugOverlay i src b) = []"
  by (simp add: createDebugOverlay_def style_of_def set_style_def AList.update_conv'
      createElement_nil document_createElement_def)

lemma selectTab_keeps_visibility:
  "i < length (imageItems e) \<Longrightarrow>
     style_of ''visibility'' (imageItems (selectTab ix e) ! i) =
       style_of ''visibility'' (imageItems e ! i)"
  "i < length (debugItems e) \<Longrightarrow>
     style_of ''visibility'' (debugItems (selectTab ix e) ! i) =
       style_of ''visibility'' (debugItems e ! i)"
  by (simp_all add: selectTab_def forEach_nth style_of_set_style_other)

lemma selectTab_visible:
  "i < length (imageItems e) \<Longrightarrow>
     visible (imageItems (selectTab ix e) ! i) =
       (strict_eq i ix \<and> style_of ''visibility'' (imageItems e ! i) \<noteq> ''hidden'')"
  "i < length (buttonItems e) \<Longrightarrow>
     visible (buttonItems (selectTab ix e) ! i) =
       (strict_eq i ix \<and> style_of ''visibility'' (buttonItems e ! i) \<noteq> ''hidden'')"
  "i < length (debugItems e) \<Longrightarrow>
     visible (debugItems (selectTab ix e) ! i) =
       (strict_eq i ix \<and> style_of ''visibility'' (debugItems e ! i) \<noteq> ''hidden'')"
  by (simp_all add: visible_def selectTab_image selectTab_button selectTab_debug
      selectTab_keeps_visibility selectTab_button_keeps del: strict_eq.simps)

lemma built_visibility:
  "i < length (tabs s) \<Longrightarrow> style_of ''visibility'' (imageItems (createTabElements s) ! i) = []"
  "i < length (tabs s) \<Longrightarrow>
     style_of ''visibility'' (buttonItems (createTabElements s) ! i) =
       (if usable_button (tabs s ! i) then [] else ''hidden'')"
  "debug s \<Longrightarrow> i < length (tabs s) \<Longrightarrow>
     style_of ''visibility'' (debugItems (createTabElements s) ! i) = []"
  by (simp_all add: createTabElements_image_nth image_not_hidden createTabElements_button_nth
      createButton_fields placeholder_fields createTabElements_debug_nth debug_not_hidden)

lemma filter_upt_none:
  assumes "\<And>i. i < n \<Longrightarrow> \<not> P i"
  shows "filter P [0..<n] = []"
  using assms by (simp add: filter_empty_conv)

text \<open>
  C8, as the code has it: when the container resolves, the widget that
  \<open>createVerticalTabs\<close> leaves on the page is the built widget, with its listener,
  after \<open>selectTab(0)\<close>, whatever the number N of tabs. For N > 0 the positions whose
  header is active, whose image is visible, whose button has a display other than none
  and (under debug) whose panel is visible are in each case exactly position 0. The
  button at position 0 is visible when tab 0 has a usable button; when it has none, that
  button is the placeholder, whose visibility stays hidden, and no button is visible. For
  N = 0 the selection changes nothing.
\<close>

theorem createVerticalTabs_selects_first:
  assumes "querySelector (config_container config) w = Some ws"
  shows "let s = settings_of config;
             built = attachEventListeners (createTabElements s);
             e = last (widgets (createVerticalTabs config w));
             positions = [0..<length (tabs s)]
         in widgets (createVerticalTabs config w) = widgets w @ [e]
          \<and> e = selectTab (Finite 0) built
          \<and> (0 < length (tabs s) \<longrightarrow>
               filter (\<lambda>i. contains ''active'' (tabItems e ! i)) positions = [0]
             \<and> filter (\<lambda>i. visible (imageItems e ! i)) positions = [0]
             \<and> filter (\<lambda>i. style_of ''display'' (buttonItems e ! i) \<noteq> ''none'') positions = [0]
             \<and> filter (\<lambda>i. visible (buttonItems e ! i)) positions =
                 (if usable_button (tabs s ! 0) then [0] else [])
             \<and> (debug s \<longrightarrow> filter (\<lambda>i. visible (debugItems e ! i)) positions = [0]))
          \<and> (length (tabs s) = 0 \<longrightarrow> selectTab (Finite 0) built = built)"
proof -
  let ?s = "settings_of config"
  let ?built = "attachEventListeners (createTabElements ?s)"
  let ?e = "selectTab (Finite 0) ?built"
  let ?n = "length (tabs ?s)"
  have ws: "widgets (createVerticalTabs config w) = widgets w @ [?e]"
    using createVerticalTabs_found [OF assms] by simp
  have len: "length (tabItems ?built) = ?n" "length (imageItems ?built) = ?n"
    "length (buttonItems ?built) = ?n"
    "length (debugItems ?built) = (if debug ?s then ?n else 0)"
    using createTabElements_shape [of ?s] by simp_all
  have act: "filter (\<lambda>i. contains ''active'' (tabItems ?e ! i)) [0..<?n] = [0]" if "0 < ?n"
    by (rule filter_upt_only_zero [OF that]) (use len in \<open>simp add: selectTab_active\<close>)
  have img: "filter (\<lambda>i. visible (imageItems ?e ! i)) [0..<?n] = [0]" if "0 < ?n"
  proof (rule filter_upt_only_zero [OF that])
    fix i assume i: "i < ?n"
    have "style_of ''visibility'' (imageItems ?built ! i) = []"
      using built_visibility(1) [of i ?s] i by simp
    then show "visible (imageItems ?e ! i) = (i = 0)"
      using i len(2) by (simp add: selectTab_visible(1))
  qed
  have btn: "filter (\<lambda>i. style_of ''display'' (buttonItems ?e ! i) \<noteq> ''none'') [0..<?n] = [0]"
    if "0 < ?n"
    by (rule filter_upt_only_zero [OF that]) (use len in \<open>simp add: selectTab_button\<close>)
  have vis: "visible (buttonItems ?e ! i) = (i = 0 \<and> usable_button (tabs ?s ! i))"
    if i: "i < ?n" for i
  proof -
    have "style_of ''visibility'' (buttonItems ?built ! i) =
        (if usable_button (tabs ?s ! i) then [] else ''hidden'')"
      using built_visibility(2) [of i ?s] i by simp
    then show ?thesis
      using i len(3) by (simp add: selectTab_visible(2))
  qed
  have btnv: "filter (\<lambda>i. visible (buttonItems ?e ! i)) [0..<?n] =
      (if usable_button (tabs ?s ! 0) then [0] else [])" if n: "0 < ?n"
  proof (cases "usable_button (tabs ?s ! 0)")
    case True
    have "filter (\<lambda>i. visible (buttonItems ?e ! i)) [0..<?n] = [0]"
      by (rule filter_upt_only_zero [OF n]) (use vis True in auto)
    then show ?thesis using True by simp
  next
    case False
    have "filter (\<lambda>i. visible (buttonItems ?e ! i)) [0..<?n] = []"
      by (rule filter_upt_none) (use vis False in auto)
    then show ?thesis using False by simp
  qed
  have dbg: "filter (\<lambda>i. visible (debugItems ?e ! i)) [0..<?n] = [0]"
    if n: "0 < ?n" and d: "debug ?s"
  proof (rule filter_upt_only_zero [OF n])
    fix i assume i: "i < ?n"
    have "style_of ''visibility'' (debugItems ?built ! i) = []"
      using built_visibility(3) [of ?s i] i d by simp
    then show "visible (debugItems ?e ! i) = (i = 0)"
      using i len(4) d by (simp add: selectTab_visible(3))
  qed
  have none: "?e = ?built" if "?n = 0"
  proof (rule selectTab_empty)
    show "tabItems ?built = []" using len(1) that by simp
    show "imageItems ?built = []" using len(2) that by simp
    show "buttonItems ?built = []" using len(3) that by simp
    show "debugItems ?built = []" using len(4) that by (simp split: if_splits)
  qed
  show ?thesis
    unfolding Let_def using ws act img btn btnv dbg none by simp
qed

theorem createVerticalTabs_selects_first_witness:
  "filter (\<lambda>i. contains ''active'' (tabItems (last (widgets (createVerticalTabs config_x page_x))) ! i))
     [0..<length (tabs (settings_of config_x))] = [0]
   \<and> filter (\<lambda>i. visible (debugItems (last (widgets (createVerticalTabs config_x page_x))) ! i))
       [0..<length (tabs (settings_of config_x))] = [0]
   \<and> filter (\<lambda>i. visible (buttonItems (last (widgets (createVerticalTabs config_x page_x))) ! i))
       [0..<length (tabs (settings_of config_x))] = [0]
   \<and> filter (\<lambda>i. visible (buttonItems (last (widgets (createVerticalTabs config_z page_x))) ! i))
       [0..<length (tabs (settings_of config_z))] = []
   \<and> last (widgets (createVerticalTabs config_x page_x)) =
       selectTab (Finite 0) (attachEventListeners (createTabElements (settings_of config_x)))
   \<and> length (tabs (settings_of config_x)) = 3
   \<and> selectTab (Finite 0) (attachEventListeners (createTabElements (settings_of config_y))) =
       attachEventListeners (createTabElements (settings_of config_y))"
proof -
  have hx: "querySelector (config_container config_x) page_x = Some []"
    by (simp add: config_x_def page_x_def querySelector_def)
  have hy: "querySelector (config_container config_y) page_x = Some []"
    by (simp add: config_y_def page_x_def querySelector_def)
  have hz: "querySelector (config_container config_z) page_x = Some []"
    by (simp add: config_z_def page_x_def querySelector_def)
  have nx: "length (tabs (settings_of config_x)) = 3" and dx: "debug (settings_of config_x)"
    and ux: "usable_button (tabs (settings_of config_x) ! 0)"
    by (simp_all add: config_x_def tab_A_def usable_button_def)
  have ny: "length (tabs (settings_of config_y)) = 0"
    by (simp add: config_y_def)
  have nz: "0 < length (tabs (settings_of config_z))"
    and uz: "\<not> usable_button (tabs (settings_of config_z) ! 0)"
    by (simp_all add: config_z_def tab_B_def usable_button_def)
  have nx0: "0 < length (tabs (settings_of config_x))"
    unfolding nx by simp
  note tx = createVerticalTabs_selects_first [OF hx, unfolded Let_def]
  note ty = createVerticalTabs_selects_first [OF hy, unfolded Let_def]
  note tz = createVerticalTabs_selects_first [OF hz, unfolded Let_def]
  have a: "filter (\<lambda>i. contains ''active'' (tabItems (last (widgets (createVerticalTabs config_x page_x))) ! i))
     [0..<length (tabs (settings_of config_x))] = [0]"
    using tx nx0 by blast
  have b: "filter (\<lambda>i. visible (debugItems (last (widgets (createVerticalTabs config_x page_x))) ! i))
       [0..<length (tabs (settings_of config_x))] = [0]"
    using tx nx0 dx by blast
  have "filter (\<lambda>i. visible (buttonItems (last (widgets (createVerticalTabs config_x page_x))) ! i))
       [0..<length (tabs (settings_of config_x))] =
       (if usable_button (tabs (settings_of config_x) ! 0) then [0] else [])"
    using tx nx0 by blast
  then have b1: "filter (\<lambda>i. visible (buttonItems (last (widgets (createVerticalTabs config_x page_x))) ! i))
       [0..<length (tabs (settings_of config_x))] = [0]"
    using ux by simp
  have "filter (\<lambda>i. visible (buttonItems (last (widgets (createVerticalTabs config_z page_x))) ! i))
       [0..<length (tabs (settings_of config_z))] =
       (if usable_button (tabs (settings_of config_z) ! 0) then [0] else [])"
    using tz nz by blast
  then have b2: "filter (\<lambda>i. visible (buttonItems (last (widgets (createVerticalTabs config_z page_x))) ! i))
       [0..<length (tabs (settings_of config_z))] = []"
    using uz by simp
  have c: "last (widgets (createVerticalTabs config_x page_x)) =
       selectTab (Finite 0) (attachEventListeners (createTabElements (settings_of config_x)))"
    using tx by blast
  have d: "selectTab (Finite 0) (attachEventListeners (createTabElements (settings_of config_y))) =
       attachEventListeners (createTabElements (settings_of config_y))"
    using ty ny by blast
  show ?thesis
    using a b b1 b2 c d nx by blast
qed

text \<open>
  The first tab of the example has no button: after \<open>createVerticalTabs\<close> the button
  at position 0 is the placeholder, displayed inline-block but with visibility hidden, and
  the button at position 1 has display none. None of the two buttons is visible.
\<close>

theorem no_visible_button_counterexample:
  "length (tabs (settings_of config_z)) = 2
   \<and> style_of ''display'' (buttonItems (last (widgets (createVerticalTabs config_z page_x))) ! 0)
       = ''inline-block''
   \<and> style_of ''visibility'' (buttonItems (last (widgets (createVerticalTabs config_z page_x))) ! 0)
       = ''hidden''
   \<and> style_of ''display'' (buttonItems (last (widgets (createVerticalTabs config_z page_x))) ! 1)
       = ''none''
   \<and> filter visible (buttonItems (last (widgets (createVerticalTabs config_z page_x)))) = []"
  by code_simp

subsection \<open>The click listener\<close>

text \<open>
  C6, as the code has it. The listener of the TypeScript source and of its build: when no
  header is found among the target and its ancestors, or the header stores no index or
  the empty string, or \<open>Number\<close> of the stored index is \<open>NaN\<close>, the page is left as
  it was, console included; otherwise the widget is replaced by \<open>selectTab\<close> of the
  parsed index and nothing else changes. The listener of version 1.0.0: when no header is
  found it emits a warning and changes nothing else; when the header stores no index or
  \<open>Number\<close> of the stored index is \<open>NaN\<close> it emits an error and changes nothing
  else; in every other case, a stored empty string that \<open>Number\<close> does not send to
  \<open>NaN\<close> included, it replaces the widget by \<open>selectTab\<close> of the parsed index and
  emits nothing.
\<close>

theorem tabUL_onclick_cases:
  "let header = closest ''vt__list-item'' (target ev);
       stored = (case header of None \<Rightarrow> None | Some tabEl \<Rightarrow> dataset tabEl ''index'')
   in (if header = None \<or> stored = None \<or> stored = Some [] \<or> isNaN (Number (the stored))
       then tabUL_onclick Number wi ev w = w
       else tabUL_onclick Number wi ev w =
              w\<lparr>widgets := (widgets w)[wi := selectTab (Number (the stored)) (widgets w ! wi)]\<rparr>)
    \<and> (if header = None
        then tabUL_onclick_v1 Number ev p =
               p\<lparr>console_v1 := console_v1 p @ [ConsoleWarn ''Clicked outside a tab'']\<rparr>
        else if stored = None \<or> isNaN (Number (the stored))
        then tabUL_onclick_v1 Number ev p =
               p\<lparr>console_v1 := console_v1 p @ [ConsoleError ''Invalid tab index:'']\<rparr>
        else tabUL_onclick_v1 Number ev p =
               p\<lparr>elements_v1 := selectTab_v1 (Number (the stored)) (elements_v1 p)\<rparr>)"
  by (simp add: tabUL_onclick_def tabUL_onclick_v1_def Let_def isNaN_def split: option.splits)

text \<open>
  A click on the list of version 1.0.0 itself, outside every header, and a click on a
  header whose stored index is \<open>abc\<close>: each is ignored, but not silently. A click on a
  header whose stored index is the empty string: the listener of the TypeScript source
  ignores it, the listener of version 1.0.0 selects tab 0.
\<close>

theorem tabUL_onclick_v1_warns_counterexample:
  "closest ''vt__list-item'' [tabUL_v1 (elements_v1 page_v1_x)] = None
   \<and> tabUL_onclick_v1 Number_of_digits \<lparr>target = [tabUL_v1 (elements_v1 page_v1_x)]\<rparr> page_v1_x
       = page_v1_x\<lparr>console_v1 := [ConsoleWarn ''Clicked outside a tab'']\<rparr>
   \<and> tabUL_onclick_v1 Number_of_digits \<lparr>target = [tabUL_v1 (elements_v1 page_v1_x)]\<rparr> page_v1_x
       \<noteq> page_v1_x
   \<and> tabUL_onclick_v1 Number_of_digits
         \<lparr>target = [stray_header, tabUL_v1 (elements_v1 page_v1_x)]\<rparr> page_v1_x
       = page_v1_x\<lparr>console_v1 := [ConsoleError ''Invalid tab index:'']\<rparr>
   \<and> dataset blank_header ''index'' = Some []
   \<and> Number_of_digits [] = Finite 0
   \<and> tabUL_onclick Number_of_digits 0 \<lparr>target = [blank_header, tabUL (widgets page_x1 ! 0)]\<rparr> page_x1
       = page_x1
   \<and> tabUL_onclick_v1 Number_of_digits
         \<lparr>target = [blank_header, tabUL_v1 (elements_v1 page_v1_x)]\<rparr> page_v1_x
       = page_v1_x\<lparr>elements_v1 := selectTab_v1 (Finite 0) (elements_v1 page_v1_x)\<rparr>
   \<and> \<not> contains ''active'' (tabItems_v1 (elements_v1 page_v1_x) ! 0)
   \<and> contains ''active''
         (tabItems_v1 (elements_v1
            (tabUL_onclick_v1 Number_of_digits
               \<lparr>target = [blank_header, tabUL_v1 (elements_v1 page_v1_x)]\<rparr> page_v1_x)) ! 0)"
proof -
  have ul: "closest ''vt__list-item'' [tabUL_v1 (elements_v1 page_v1_x)] = None"
    by (simp add: closest_def contains_def page_v1_x_def createElement_def class_tokens_def
        document_createElement_def)
  have li: "closest ''vt__list-item'' [stray_header, tabUL_v1 (elements_v1 page_v1_x)]
      = Some stray_header"
    by (simp add: closest_def contains_def stray_header_def set_dataset_def setAttribute_def
        createElement_def class_tokens_def document_createElement_def)
  have ds: "dataset stray_header ''index'' = Some ''abc''"
    by (simp add: stray_header_def set_dataset_def setAttribute_def dataset_def
        createElement_def document_createElement_def)
  have nan: "Number_of_digits ''abc'' = NaN"
    by (simp add: Number_of_digits_def digit_value_def)
  have bl: "closest ''vt__list-item'' (blank_header # rest) = Some blank_header" for rest
    by (simp add: closest_def contains_def blank_header_def set_dataset_def setAttribute_def
        createElement_def class_tokens_def document_createElement_def)
  have bd: "dataset blank_header ''index'' = Some []"
    by (simp add: blank_header_def set_dataset_def setAttribute_def dataset_def
        createElement_def document_createElement_def)
  have zero: "Number_of_digits [] = Finite 0"
    by (simp add: Number_of_digits_def)
  have c: "console_v1 page_v1_x = []"
    by (simp add: page_v1_x_def)
  have ne: "page_v1_x\<lparr>console_v1 := [ConsoleWarn ''Clicked outside a tab'']\<rparr> \<noteq> page_v1_x"
  proof
    assume "page_v1_x\<lparr>console_v1 := [ConsoleWarn ''Clicked outside a tab'']\<rparr> = page_v1_x"
    then have "console_v1 (page_v1_x\<lparr>console_v1 := [ConsoleWarn ''Clicked outside a tab'']\<rparr>)
        = console_v1 page_v1_x"
      by simp
    then show False by (simp add: c)
  qed
  have ts: "tabUL_onclick Number_of_digits 0
      \<lparr>target = [blank_header, tabUL (widgets page_x1 ! 0)]\<rparr> page_x1 = page_x1"
    by (simp add: tabUL_onclick_def bl bd)
  have v1: "tabUL_onclick_v1 Number_of_digits
      \<lparr>target = [blank_header, tabUL_v1 (elements_v1 page_v1_x)]\<rparr> page_v1_x
      = page_v1_x\<lparr>elements_v1 := selectTab_v1 (Finite 0) (elements_v1 page_v1_x)\<rparr>"
    by (simp add: tabUL_onclick_v1_def bl bd zero isNaN_def)
  have before: "\<not> contains ''active'' (tabItems_v1 (elements_v1 page_v1_x) ! 0)"
    by (simp add: page_v1_x_def createTabItem_def createElement_nil set_dataset_def
        setAttribute_def contains_def class_tokens_def document_createElement_def)
  have after: "contains ''active''
      (tabItems_v1 (elements_v1 (page_v1_x\<lparr>elements_v1 := selectTab_v1 (Finite 0) (elements_v1 page_v1_x)\<rparr>)) ! 0)"
    by (simp add: selectTab_v1_def page_v1_x_def)
  show ?thesis
    using ne before after
    by (simp add: tabUL_onclick_v1_def ul li ds nan c isNaN_def bd zero ts v1 bl)
qed

subsection \<open>Headers as built\<close>

lemma toString_nonempty: "toString i \<noteq> []"
  by (subst toString.simps) simp

lemma digit_value_digit_char: "d < 10 \<Longrightarrow> digit_value (digit_char d) = Some d"
  by (simp add: digit_value_def digit_char_def Let_def)

lemma digits_value_snoc:
  "digits_value acc (cs @ [c]) =
     (case digits_value acc cs of
        None \<Rightarrow> None
      | Some v \<Rightarrow> (case digit_value c of None \<Rightarrow> None | Some d \<Rightarrow> Some (10 * v + d)))"
  by (induction cs arbitrary: acc) (simp_all split: option.splits)

lemma digits_value_toString: "digits_value 0 (toString n) = Some n"
proof (induction n rule: toString.induct)
  case (1 n)
  show ?case
  proof (cases "n < 10")
    case True
    then show ?thesis
      by (subst toString.simps) (simp add: digit_value_digit_char)
  next
    case False
    have "digits_value 0 (toString (n div 10)) = Some (n div 10)"
      using "1.IH" False by simp
    then show ?thesis
      using False by (subst toString.simps) (simp add: digits_value_snoc digit_value_digit_char)
  qed
qed

lemma Number_of_digits_toString: "Number_of_digits (toString n) = Finite (of_nat n)"
  by (simp add: Number_of_digits_def toString_nonempty digits_value_toString)

lemma createTabItem_header:
  "contains ''vt__list-item'' (createTabItem t i)"
  "dataset (createTabItem t i) ''index'' = Some (toString i)"
  by (simp_all add: createTabItem_def createElement_nil set_dataset_def setAttribute_def
      dataset_def contains_def class_tokens_def document_createElement_def)

lemma toggle_keeps:
  "dataset (toggle tok f el) name = dataset el name"
  "tok' \<noteq> tok \<Longrightarrow> contains tok' (toggle tok f el) = contains tok' el"
  by (simp_all add: toggle_def dataset_def contains_def)

lemma header_ok_toggle: "header_ok Number i (toggle ''active'' f el) = header_ok Number i el"
  by (simp add: header_ok_def toggle_keeps)

lemma selectTab_tabItems_nth:
  "i < length (tabItems e) \<Longrightarrow>
     tabItems (selectTab ix e) ! i = toggle ''active'' (strict_eq i ix) (tabItems e ! i)"
  by (simp add: selectTab_def forEach_nth)

lemma widget_ok_selectTab: "widget_ok Number (selectTab ix e) = widget_ok Number e"
  by (simp add: widget_ok_def selectTab_tabItems_nth header_ok_toggle)

lemma add_tab_tabUL_listeners: "listeners (tabUL (add_tab s acc t i)) = listeners (tabUL acc)"
  by (simp add: add_tab_def Let_def appendChild_def split: prod.splits)

lemma reduce_tabUL_listeners:
  "listeners (tabUL (reduce (add_tab s) ts i acc)) = listeners (tabUL acc)"
  by (induction ts arbitrary: i acc) (simp_all add: add_tab_tabUL_listeners)

lemma createTabElements_listeners: "listeners (tabUL (createTabElements s)) = []"
  by (simp add: createTabElements_def Let_def reduce_tabUL_listeners createElement_nil
      document_createElement_def)

lemma createTabElements_tabItems_nth:
  "i < length (tabs s) \<Longrightarrow> tabItems (createTabElements s) ! i = createTabItem (tabs s ! i) i"
  by (simp add: createTabElements_tabItems)

lemma built_widget_ok:
  assumes "\<forall>i<length (tabs s). Number (toString i) = Finite (of_nat i)"
  shows "widget_ok Number (attachEventListeners (createTabElements s))"
  using assms createTabElements_shape [of s]
  by (simp add: widget_ok_def header_ok_def createTabElements_tabItems_nth createTabItem_header
      attachEventListeners_def createTabElements_listeners)

subsection \<open>The linear scan\<close>

lemma findIndex_bounds: "- 1 \<le> findIndex P xs \<and> findIndex P xs < int (length xs)"
  by (induction xs) (auto simp: Let_def)

lemma findIndex_none: "(findIndex P xs = - 1) = (\<forall>x\<in>set xs. \<not> P x)"
proof (induction xs)
  case Nil
  then show ?case by simp
next
  case (Cons x xs)
  have "- 1 \<le> findIndex P xs"
    using findIndex_bounds [of P xs] by simp
  then show ?case
    using Cons.IH by (auto simp: Let_def)
qed

lemma findIndex_first:
  "j < length xs \<Longrightarrow> P (xs ! j) \<Longrightarrow> \<forall>i<j. \<not> P (xs ! i) \<Longrightarrow> findIndex P xs = int j"
proof (induction xs arbitrary: j)
  case Nil
  then show ?case by simp
next
  case (Cons x xs)
  show ?case
  proof (cases j)
    case 0
    then show ?thesis using Cons.prems by simp
  next
    case (Suc j')
    have nx: "\<not> P x"
      using Cons.prems(3) Suc by auto
    have "findIndex P xs = int j'"
    proof (rule Cons.IH)
      show "j' < length xs" using Cons.prems(1) Suc by simp
      show "P (xs ! j')" using Cons.prems(2) Suc by simp
      show "\<forall>i<j'. \<not> P (xs ! i)"
      proof (intro allI impI)
        fix i assume "i < j'"
        then have "Suc i < j" using Suc by simp
        then have "\<not> P ((x # xs) ! Suc i)" using Cons.prems(3) by blast
        then show "\<not> P (xs ! i)" by simp
      qed
    qed
    then show ?thesis
      using nx Suc by (simp add: Let_def)
  qed
qed

lemma findIndex_found:
  "0 \<le> findIndex P xs \<Longrightarrow>
     P (xs ! nat (findIndex P xs)) \<and> (\<forall>i<nat (findIndex P xs). \<not> P (xs ! i))"
proof (induction xs)
  case Nil
  then show ?case by simp
next
  case (Cons x xs)
  show ?case
  proof (cases "P x")
    case True
    then show ?thesis by simp
  next
    case False
    have r: "0 \<le> findIndex P xs"
      using Cons.prems False by (simp add: Let_def split: if_splits)
    have eq: "findIndex P (x # xs) = findIndex P xs + 1"
      using False r by (simp add: Let_def)
    have n: "nat (findIndex P xs + 1) = Suc (nat (findIndex P xs))"
      using r by simp
    have ih: "P (xs ! nat (findIndex P xs))" "\<forall>i<nat (findIndex P xs). \<not> P (xs ! i)"
      using Cons.IH [OF r] by simp_all
    show ?thesis
      unfolding eq n using ih False by (auto simp: less_Suc_eq_0_disj)
  qed
qed

subsection \<open>A click on a header\<close>

lemma click_selects:
  assumes "wi < length (widgets w)" and "widget_ok Number (widgets w ! wi)"
    and "i < length (tabItems (widgets w ! wi))"
  shows "click Number (wi, i) w =
           w\<lparr>widgets := (widgets w)[wi := selectTab (Finite (of_nat i)) (widgets w ! wi)]\<rparr>"
proof -
  let ?e = "widgets w ! wi"
  have l: "listeners (tabUL ?e) = [''click'']"
    using assms(2) by (simp add: widget_ok_def)
  have h: "header_ok Number i (tabItems ?e ! i)"
    using assms(2,3) by (simp add: widget_ok_def)
  have c: "closest ''vt__list-item'' [tabItems ?e ! i, tabUL ?e, tabsEl ?e, wrapper ?e]
      = Some (tabItems ?e ! i)"
    using h by (simp add: closest_def header_ok_def)
  show ?thesis
    using h by (simp add: click_def Let_def l tabUL_onclick_def c header_ok_def
        toString_nonempty isNaN_def)
qed

lemma click_without_listener:
  "listeners (tabUL (widgets w ! wi)) = [] \<Longrightarrow> click Number (wi, i) w = w"
  by (simp add: click_def Let_def)

subsection \<open>Ticks over the headers of one widget\<close>

lemma querySelectorAll_single:
  assumes "widget_ok Number (widgets w ! wi)"
  shows "querySelectorAll [wi] w =
           map (\<lambda>i. (wi, i)) [0..<length (tabItems (widgets w ! wi))]"
proof -
  have "filter (\<lambda>i. contains ''vt__list-item'' (tabItems (widgets w ! wi) ! i))
          [0..<length (tabItems (widgets w ! wi))] = [0..<length (tabItems (widgets w ! wi))]"
    using assms by (intro filter_True) (simp add: widget_ok_def header_ok_def)
  then show ?thesis
    by (simp add: querySelectorAll_def)
qed

lemma strict_eq_of_nat: "strict_eq i (Finite (of_nat j)) = (i = j)"
  by simp

lemma findIndex_after_select:
  assumes "wi < length (widgets w)" and "j < length (tabItems (widgets w ! wi))"
  shows "findIndex
           (tab_active (w\<lparr>widgets := (widgets w)[wi := selectTab (Finite (of_nat j)) (widgets w ! wi)]\<rparr>))
           (map (\<lambda>i. (wi, i)) [0..<length (tabItems (widgets w ! wi))]) = int j"
proof (rule findIndex_first)
  let ?n = "length (tabItems (widgets w ! wi))"
  let ?w' = "w\<lparr>widgets := (widgets w)[wi := selectTab (Finite (of_nat j)) (widgets w ! wi)]\<rparr>"
  show "j < length (map (\<lambda>i. (wi, i)) [0..<?n])"
    using assms(2) by simp
  show "tab_active ?w' (map (\<lambda>i. (wi, i)) [0..<?n] ! j)"
    using assms by (simp add: tab_active_def selectTab_active del: strict_eq.simps)
      (simp add: strict_eq_of_nat)
  show "\<forall>i<j. \<not> tab_active ?w' (map (\<lambda>i. (wi, i)) [0..<?n] ! i)"
    using assms by (simp add: tab_active_def selectTab_active del: strict_eq.simps)
      (simp add: strict_eq_of_nat)
qed

lemma next_index_in_range:
  assumes "0 < n" and "- 1 \<le> k" and "k < int n"
  shows "0 \<le> (k + 1) mod int n" and "nat ((k + 1) mod int n) < n"
proof -
  have pos: "0 < int n"
    using assms(1) by simp
  show "0 \<le> (k + 1) mod int n"
    using pos by simp
  have "(k + 1) mod int n < int n"
    using pos by (rule pos_mod_bound)
  then show "nat ((k + 1) mod int n) < n"
    using pos by linarith
qed

lemma one_tick:
  assumes wi: "wi < length (widgets w)" and ok: "widget_ok Number (widgets w ! wi)"
    and n: "0 < length (tabItems (widgets w ! wi))"
    and tl: "tabList = map (\<lambda>i. (wi, i)) [0..<length (tabItems (widgets w ! wi))]"
  defines "next \<equiv> nat ((findIndex (tab_active w) tabList + 1) mod int (length tabList))"
  defines "w' \<equiv> w\<lparr>widgets := (widgets w)[wi := selectTab (Finite (of_nat next)) (widgets w ! wi)]\<rparr>"
  shows "cycleTabs Number tabList w = Inr (click Number (tabList ! next) w)"
    and "click Number (tabList ! next) w = w'"
    and "next < length tabList"
    and "findIndex (tab_active w') tabList = int next"
    and "wi < length (widgets w')" and "widget_ok Number (widgets w' ! wi)"
    and "length (tabItems (widgets w' ! wi)) = length (tabItems (widgets w ! wi))"
proof -
  let ?n = "length (tabItems (widgets w ! wi))"
  have len: "length tabList = ?n"
    by (simp add: tl)
  have ne: "tabList \<noteq> []"
    using n len by auto
  have b: "- 1 \<le> findIndex (tab_active w) tabList" "findIndex (tab_active w) tabList < int ?n"
    using findIndex_bounds [of "tab_active w" tabList] len by simp_all
  show nx: "next < length tabList"
    unfolding next_def len using next_index_in_range(2) [OF n b] .
  show c: "cycleTabs Number tabList w = Inr (click Number (tabList ! next) w)"
    using ne by (simp add: cycleTabs_def Let_def next_def)
  have t: "tabList ! next = (wi, next)"
    using nx len by (simp add: tl)
  show "click Number (tabList ! next) w = w'"
    unfolding t w'_def using nx len by (intro click_selects [OF wi ok]) simp
  show "findIndex (tab_active w') tabList = int next"
    unfolding w'_def tl using nx len by (intro findIndex_after_select [OF wi]) simp
  show "wi < length (widgets w')"
    using wi by (simp add: w'_def)
  show "widget_ok Number (widgets w' ! wi)"
    using wi ok by (simp add: w'_def widget_ok_selectTab)
  show "length (tabItems (widgets w' ! wi)) = ?n"
    using wi by (simp add: w'_def)
qed

lemma ticks_advance:
  assumes "wi < length (widgets w)" and "widget_ok Number (widgets w ! wi)"
    and "length (tabItems (widgets w ! wi)) = N" and "0 < N"
    and "tabList = map (\<lambda>i. (wi, i)) [0..<N]"
    and "0 \<le> findIndex (tab_active w) tabList"
  shows "\<exists>w'. ticks Number tabList n w = Inr w'
           \<and> findIndex (tab_active w') tabList
               = (findIndex (tab_active w) tabList + int n) mod int N"
  using assms
proof (induction n arbitrary: w)
  case 0
  have "findIndex (tab_active w) tabList < int N"
    using findIndex_bounds [of "tab_active w" tabList] "0.prems"(5) by simp
  then show ?case
    using "0.prems"(6) by simp
next
  case (Suc n)
  let ?k = "findIndex (tab_active w) tabList"
  let ?next = "nat ((?k + 1) mod int (length tabList))"
  let ?w1 = "w\<lparr>widgets := (widgets w)[wi := selectTab (Finite (of_nat ?next)) (widgets w ! wi)]\<rparr>"
  have n: "0 < length (tabItems (widgets w ! wi))"
    using Suc.prems(3,4) by simp
  have tl: "tabList = map (\<lambda>i. (wi, i)) [0..<length (tabItems (widgets w ! wi))]"
    using Suc.prems(3,5) by simp
  have len: "length tabList = N"
    using Suc.prems(5) by simp
  note t = one_tick [OF Suc.prems(1,2) n tl]
  have step: "cycleTabs Number tabList w = Inr ?w1"
    using t(1,2) by simp
  have k1: "findIndex (tab_active ?w1) tabList = (?k + 1) mod int N"
    using t(4) Suc.prems(4) len by simp
  have "\<exists>w'. ticks Number tabList n ?w1 = Inr w'
           \<and> findIndex (tab_active w') tabList
               = (findIndex (tab_active ?w1) tabList + int n) mod int N"
  proof (rule Suc.IH)
    show "wi < length (widgets ?w1)" using t(5) .
    show "widget_ok Number (widgets ?w1 ! wi)" using t(6) .
    show "length (tabItems (widgets ?w1 ! wi)) = N" using t(7) Suc.prems(3) by simp
    show "0 < N" using Suc.prems(4) .
    show "tabList = map (\<lambda>i. (wi, i)) [0..<N]" using Suc.prems(5) .
    show "0 \<le> findIndex (tab_active ?w1) tabList" using k1 Suc.prems(4) by simp
  qed
  then obtain w' where w': "ticks Number tabList n ?w1 = Inr w'"
    "findIndex (tab_active w') tabList = ((?k + 1) mod int N + int n) mod int N"
    using k1 by auto
  have "((?k + 1) mod int N + int n) mod int N = ((?k + 1) + int n) mod int N"
    by (rule mod_add_left_eq)
  also have "(?k + 1) + int n = ?k + int (Suc n)"
    by simp
  finally have "((?k + 1) mod int N + int n) mod int N = (?k + int (Suc n)) mod int N" .
  then show ?case
    using step w' by simp
qed

lemma click_no_listener:
  "listeners (tabUL (widgets w ! fst r)) = [] \<Longrightarrow> click Number r w = w"
  by (cases r) (simp add: click_def Let_def)

text \<open>
  C3, as the code has it: a tick over a non-empty header list of length N scans for the
  first active header (k, or \<open>-1\<close> when none is active) and clicks the header at
  (k + 1) mod N, which is position 0 when none is active; the selection happens only
  through the click listener of the list (with no listener the tick changes nothing).
  When the list holds the headers of one widget, with its listener and its stored
  indices as built, the click selects that position, and starting from an active index
  k, N consecutive ticks bring the active index back to k. With the headers of several
  widgets in the list this return is not promised.
\<close>

theorem cycleTabs_clicks_next:
  assumes "tabList \<noteq> []"
  shows "let N = length tabList;
             k = findIndex (tab_active w) tabList;
             next = nat ((k + 1) mod int N)
         in - 1 \<le> k \<and> k < int N \<and> next < N
          \<and> (k = - 1) = (\<forall>r\<in>set tabList. \<not> tab_active w r)
          \<and> (0 \<le> k \<longrightarrow> tab_active w (tabList ! nat k) \<and> (\<forall>j<nat k. \<not> tab_active w (tabList ! j)))
          \<and> (k = - 1 \<longrightarrow> next = 0)
          \<and> cycleTabs Number tabList w = Inr (click Number (tabList ! next) w)
          \<and> (listeners (tabUL (widgets w ! fst (tabList ! next))) = [] \<longrightarrow>
                cycleTabs Number tabList w = Inr w)
          \<and> (wi < length (widgets w) \<and> widget_ok Number (widgets w ! wi)
              \<and> tabList = querySelectorAll [wi] w \<longrightarrow>
                click Number (tabList ! next) w =
                  w\<lparr>widgets := (widgets w)[wi := selectTab (Finite (of_nat next)) (widgets w ! wi)]\<rparr>
              \<and> (\<exists>w'. cycleTabs Number tabList w = Inr w'
                       \<and> findIndex (tab_active w') tabList = int next)
              \<and> (0 \<le> k \<longrightarrow>
                    (\<exists>w'. ticks Number tabList N w = Inr w'
                          \<and> findIndex (tab_active w') tabList = k)))"
proof -
  let ?N = "length tabList"
  let ?k = "findIndex (tab_active w) tabList"
  let ?next = "nat ((?k + 1) mod int ?N)"
  have N: "0 < ?N"
    using assms by simp
  have b: "- 1 \<le> ?k" "?k < int ?N"
    using findIndex_bounds [of "tab_active w" tabList] by simp_all
  have nx: "?next < ?N"
    using next_index_in_range(2) [OF N b] .
  have none: "(?k = - 1) = (\<forall>r\<in>set tabList. \<not> tab_active w r)"
    by (rule findIndex_none)
  have found: "0 \<le> ?k \<longrightarrow> tab_active w (tabList ! nat ?k) \<and> (\<forall>j<nat ?k. \<not> tab_active w (tabList ! j))"
    using findIndex_found [of "tab_active w" tabList] by blast
  have zero: "?k = - 1 \<longrightarrow> ?next = 0"
    by simp
  have cyc: "cycleTabs Number tabList w = Inr (click Number (tabList ! ?next) w)"
    using assms by (simp add: cycleTabs_def Let_def)
  have nol: "listeners (tabUL (widgets w ! fst (tabList ! ?next))) = [] \<longrightarrow>
      cycleTabs Number tabList w = Inr w"
    using cyc click_no_listener [of w "tabList ! ?next" Number] by simp
  have wf: "click Number (tabList ! ?next) w =
        w\<lparr>widgets := (widgets w)[wi := selectTab (Finite (of_nat ?next)) (widgets w ! wi)]\<rparr>
      \<and> (\<exists>w'. cycleTabs Number tabList w = Inr w' \<and> findIndex (tab_active w') tabList = int ?next)
      \<and> (0 \<le> ?k \<longrightarrow>
            (\<exists>w'. ticks Number tabList ?N w = Inr w' \<and> findIndex (tab_active w') tabList = ?k))"
    if wi: "wi < length (widgets w)" and ok: "widget_ok Number (widgets w ! wi)"
      and tl: "tabList = querySelectorAll [wi] w"
  proof -
    have tl': "tabList = map (\<lambda>i. (wi, i)) [0..<length (tabItems (widgets w ! wi))]"
      using tl querySelectorAll_single [OF ok] by simp
    have "length tabList = length (map (\<lambda>i. (wi, i)) [0..<length (tabItems (widgets w ! wi))])"
      using tl' by simp
    then have len: "length (tabItems (widgets w ! wi)) = ?N"
      by simp
    have n: "0 < length (tabItems (widgets w ! wi))"
      using N len by simp
    note t = one_tick [OF wi ok n tl']
    have c1: "click Number (tabList ! ?next) w =
        w\<lparr>widgets := (widgets w)[wi := selectTab (Finite (of_nat ?next)) (widgets w ! wi)]\<rparr>"
      using t(2) .
    have c2: "\<exists>w'. cycleTabs Number tabList w = Inr w' \<and> findIndex (tab_active w') tabList = int ?next"
      using t(1,2,4) by simp
    have c3: "\<exists>w'. ticks Number tabList ?N w = Inr w' \<and> findIndex (tab_active w') tabList = ?k"
      if k0: "0 \<le> ?k"
    proof -
      have tl'': "tabList = map (\<lambda>i. (wi, i)) [0..<?N]"
        using tl' len by simp
      from ticks_advance [OF wi ok len N tl'' k0, of ?N]
      obtain w' where w': "ticks Number tabList ?N w = Inr w'"
        "findIndex (tab_active w') tabList = (?k + int ?N) mod int ?N"
        by blast
      have "(?k + int ?N) mod int ?N = ?k"
        using k0 b(2) by simp
      then show ?thesis
        using w' by auto
    qed
    show ?thesis
      using c1 c2 c3 by blast
  qed
  show ?thesis
    unfolding Let_def
    using b nx none found zero cyc nol wf by blast
qed

lemma page_x1_widgets:
  "widgets page_x1 =
     [selectTab (Finite 0) (attachEventListeners (createTabElements (settings_of config_x)))]"
proof -
  have "querySelector (config_container config_x) page_x = Some []"
    by (simp add: config_x_def page_x_def querySelector_def)
  from createVerticalTabs_found [OF this] show ?thesis
    by (simp add: page_x1_def page_x_def)
qed

lemma example_widget_ok:
  "widget_ok Number_of_digits (attachEventListeners (createTabElements (settings_of config_x)))"
  by (rule built_widget_ok) (simp add: Number_of_digits_toString)

lemma example_tabItems_length:
  "length (tabItems (createTabElements (settings_of config_x))) = 3"
  using createTabElements_shape [of "settings_of config_x"] by (simp add: config_x_def)

lemma example_not_active:
  "i < 3 \<Longrightarrow> \<not> contains ''active'' (tabItems (createTabElements (settings_of config_x)) ! i)"
  by (simp add: createTabElements_tabItems_nth config_x_def createTabItem_def createElement_nil
      set_dataset_def setAttribute_def contains_def class_tokens_def document_createElement_def)

theorem cycleTabs_clicks_next_witness:
  "findIndex (tab_active page_x1) tabs_x = 0
   \<and> cycleTabs Number_of_digits tabs_x page_x1 = Inr (click Number_of_digits (0, 1) page_x1)
   \<and> click Number_of_digits (0, 1) page_x1 =
       page_x1\<lparr>widgets := (widgets page_x1)[0 := selectTab (Finite (of_nat 1)) (widgets page_x1 ! 0)]\<rparr>
   \<and> (\<exists>w'. ticks Number_of_digits tabs_x (length tabs_x) page_x1 = Inr w'
            \<and> findIndex (tab_active w') tabs_x = 0)
   \<and> findIndex (tab_active page_unselected) tabs_x = - 1
   \<and> cycleTabs Number_of_digits tabs_x page_unselected
       = Inr (click Number_of_digits (0, 0) page_unselected)
   \<and> cycleTabs Number_of_digits tabs_x page_bare = Inr page_bare"
proof -
  have ne: "tabs_x \<noteq> []"
    by (simp add: tabs_x_def)
  have nth: "tabs_x ! 0 = (0, 0)" "tabs_x ! 1 = (0, 1)" "length tabs_x = 3"
    by (simp_all add: tabs_x_def)
  \<comment> \<open>the page that createVerticalTabs built: header 0 is active\<close>
  have wi: "0 < length (widgets page_x1)"
    by (simp add: page_x1_widgets)
  have ok: "widget_ok Number_of_digits (widgets page_x1 ! 0)"
    by (simp add: page_x1_widgets widget_ok_selectTab example_widget_ok)
  have tl: "tabs_x = querySelectorAll [0] page_x1"
    by (simp add: querySelectorAll_single [OF ok])
      (simp add: page_x1_widgets example_tabItems_length tabs_x_def upt_rec)
  have k: "findIndex (tab_active page_x1) tabs_x = 0"
    using findIndex_first [of 0 tabs_x "tab_active page_x1"]
    by (simp add: nth tab_active_def page_x1_widgets selectTab_active example_tabItems_length)
  have nx: "nat ((0 + 1) mod int (length tabs_x)) = 1"
    by (simp add: nth)
  note T = cycleTabs_clicks_next [OF ne, of page_x1 Number_of_digits 0, unfolded Let_def k nx]
  have a1: "cycleTabs Number_of_digits tabs_x page_x1 = Inr (click Number_of_digits (0, 1) page_x1)"
    using T by (simp add: tabs_x_def)
  have a2: "click Number_of_digits (0, 1) page_x1 =
       page_x1\<lparr>widgets := (widgets page_x1)[0 := selectTab (Finite (of_nat 1)) (widgets page_x1 ! 0)]\<rparr>"
    using T wi ok tl by (simp add: tabs_x_def)
  have a3: "\<exists>w'. ticks Number_of_digits tabs_x (length tabs_x) page_x1 = Inr w'
            \<and> findIndex (tab_active w') tabs_x = 0"
    using T wi ok tl by blast
  \<comment> \<open>the widget before any selection: no header is active\<close>
  have un: "widgets page_unselected
      = [attachEventListeners (createTabElements (settings_of config_x))]"
    by (simp add: page_unselected_def)
  have inactive: "\<forall>r\<in>set tabs_x. \<not> tab_active page_unselected r"
    by (simp add: tabs_x_def tab_active_def un example_not_active)
  note U = cycleTabs_clicks_next [OF ne, of page_unselected Number_of_digits 0, unfolded Let_def]
  have k': "findIndex (tab_active page_unselected) tabs_x = - 1"
    using U inactive by blast
  have b1: "cycleTabs Number_of_digits tabs_x page_unselected
       = Inr (click Number_of_digits (0, 0) page_unselected)"
    using U k' by (simp add: tabs_x_def)
  \<comment> \<open>the widget without a listener\<close>
  have bare: "listeners (tabUL (widgets page_bare ! fst (tabs_x ! nat ((findIndex (tab_active page_bare) tabs_x + 1) mod int (length tabs_x))))) = []"
  proof -
    have "fst r = 0" if "r \<in> set tabs_x" for r
      using that by (auto simp: tabs_x_def)
    moreover have "nat ((findIndex (tab_active page_bare) tabs_x + 1) mod int (length tabs_x)) < length tabs_x"
      using cycleTabs_clicks_next [OF ne, of page_bare Number_of_digits 0, unfolded Let_def] by blast
    ultimately have "fst (tabs_x ! nat ((findIndex (tab_active page_bare) tabs_x + 1) mod int (length tabs_x))) = 0"
      using nth_mem by blast
    then show ?thesis
      by (simp add: page_bare_def createTabElements_listeners)
  qed
  have c1: "cycleTabs Number_of_digits tabs_x page_bare = Inr page_bare"
    using cycleTabs_clicks_next [OF ne, of page_bare Number_of_digits 0, unfolded Let_def] bare
    by blast
  show ?thesis
    using k a1 a2 a3 k' b1 c1 by blast
qed

text \<open>
  Two widgets in one container: \<open>autoCycleTabs\<close> collects their four headers into one
  list, and the scan starts at active index 0. The first tick selects header 1 of the
  first widget. Every later tick clicks header 2, the first header of the second widget,
  which is selected there already, so the scan keeps finding index 1: after four ticks
  the active index is 1, not 0.
\<close>

theorem two_widgets_stick_counterexample:
  "querySelector ''#x'' page_two = Some [0, 1]
   \<and> querySelectorAll [0, 1] page_two = tabs_two
   \<and> length tabs_two = 4
   \<and> findIndex (tab_active page_two) tabs_two = 0
   \<and> active_after Number_of_digits tabs_two 1 page_two = Inr 1
   \<and> active_after Number_of_digits tabs_two 4 page_two = Inr 1"
  by code_simp

subsection \<open>The auto-cycle driver and its timers\<close>

lemma autoCycleTabs_started:
  assumes "querySelector sel w = Some ws" and "querySelectorAll ws w \<noteq> []"
  shows "autoCycleTabs sel ms w =
     (Some \<lparr>driver_tabs = querySelectorAll ws w,
            driver_interval = (case ms of None \<Rightarrow> 5000 | Some m \<Rightarrow> m),
            intervalId = Some (Suc (lastTimerId w))\<rparr>,
      w\<lparr>timers := timers w @
           [\<lparr>timer_id = Suc (lastTimerId w),
             delay = (case ms of None \<Rightarrow> 5000 | Some m \<Rightarrow> m),
             callback = querySelectorAll ws w\<rparr>],
        lastTimerId := Suc (lastTimerId w)\<rparr>)"
  using assms by (simp add: autoCycleTabs_def setInterval_def Let_def)

lemma autoCycleTabs_Some:
  assumes "autoCycleTabs sel ms w = (Some d, w1)"
  shows "intervalId d = Some (Suc (lastTimerId w))"
    and "timers w1 = timers w @
           [\<lparr>timer_id = Suc (lastTimerId w), delay = driver_interval d, callback = driver_tabs d\<rparr>]"
    and "lastTimerId w1 = Suc (lastTimerId w)"
    and "widgets w1 = widgets w"
  using assms
  by (auto simp: autoCycleTabs_def setInterval_def Let_def split: option.splits if_splits)

lemma find_snoc:
  "find P (xs @ [y]) = (case find P xs of None \<Rightarrow> (if P y then Some y else None) | Some x \<Rightarrow> Some x)"
  by (induction xs) simp_all

lemma timers_ok_filter_new:
  assumes "timers_ok w" and "lastTimerId w < i"
  shows "filter (\<lambda>t. timer_id t \<noteq> i) (timers w) = timers w"
    and "find (\<lambda>t. timer_id t = i) (timers w) = None"
  using assms by (auto simp: timers_ok_def find_None_iff intro!: filter_True)

text \<open>
  C9: after \<open>autoCycleTabs\<close> has started a driver, calling the returned cleanup
  function clears the driver's timer but leaves \<open>intervalId\<close> set. A pointer-leave
  right after it starts nothing; a pointer-enter resets \<open>intervalId\<close>, and the
  pointer-leave that follows starts a new timer with the driver's interval and callback,
  whose ticks run \<open>cycleTabs\<close> again.
\<close>

theorem cleanup_is_not_permanent:
  assumes "autoCycleTabs sel ms w = (Some d, w1)" and "timers_ok w"
  shows "let i = Suc (lastTimerId w);
             cancelled = foldl (driver_step Number) (d, w1) [Cleanup];
             entered = foldl (driver_step Number) (d, w1) [Cleanup, MouseEnter];
             left = foldl (driver_step Number) (d, w1) [Cleanup, MouseEnter, MouseLeave]
         in intervalId d = Some i
          \<and> timers w1 = timers w @ [\<lparr>timer_id = i, delay = driver_interval d, callback = driver_tabs d\<rparr>]
          \<and> timers (snd cancelled) = timers w
          \<and> intervalId (fst cancelled) = Some i
          \<and> timers (snd (foldl (driver_step Number) (d, w1) [Cleanup, MouseLeave])) = timers w
          \<and> intervalId (fst entered) = None
          \<and> timers (snd entered) = timers w
          \<and> intervalId (fst left) = Some (Suc i)
          \<and> timers (snd left) =
              timers w @ [\<lparr>timer_id = Suc i, delay = driver_interval d, callback = driver_tabs d\<rparr>]
          \<and> fire Number (Suc i) (snd left) =
              (case cycleTabs Number (driver_tabs d) (snd left) of
                 Inl e \<Rightarrow> snd left
               | Inr w' \<Rightarrow> w')"
proof -
  let ?i = "Suc (lastTimerId w)"
  note s = autoCycleTabs_Some [OF assms(1)]
  have f1: "filter (\<lambda>t. timer_id t \<noteq> ?i) (timers w) = timers w"
    and f2: "find (\<lambda>t. timer_id t = Suc ?i) (timers w) = None"
    using timers_ok_filter_new [OF assms(2), of ?i] timers_ok_filter_new [OF assms(2), of "Suc ?i"]
    by simp_all
  have c: "cleanup d w1 = (d, w1\<lparr>timers := timers w\<rparr>)"
    by (simp add: cleanup_def falsy_def clearInterval_def s f1)
  have cl: "mouseleave d (w1\<lparr>timers := timers w\<rparr>) = (d, w1\<lparr>timers := timers w\<rparr>)"
    by (simp add: mouseleave_def falsy_def s)
  have e: "mouseenter d (w1\<lparr>timers := timers w\<rparr>) = (d\<lparr>intervalId := None\<rparr>, w1\<lparr>timers := timers w\<rparr>)"
    by (simp add: mouseenter_def clearInterval_def s f1)
  have l: "mouseleave (d\<lparr>intervalId := None\<rparr>) (w1\<lparr>timers := timers w\<rparr>) =
      (d\<lparr>intervalId := Some (Suc ?i)\<rparr>,
       w1\<lparr>timers := timers w @ [\<lparr>timer_id = Suc ?i, delay = driver_interval d, callback = driver_tabs d\<rparr>],
          lastTimerId := Suc ?i\<rparr>)"
    by (simp add: mouseleave_def falsy_def setInterval_def Let_def s)
  have fi: "find (\<lambda>t. timer_id t = Suc ?i)
      (timers w @ [\<lparr>timer_id = Suc ?i, delay = driver_interval d, callback = driver_tabs d\<rparr>])
      = Some \<lparr>timer_id = Suc ?i, delay = driver_interval d, callback = driver_tabs d\<rparr>"
    using f2 by (simp add: find_snoc)
  show ?thesis
    unfolding Let_def
    by (simp add: c cl e l s fire_def fi split: sum.splits)
qed

lemma page_x1_fields:
  "timers page_x1 = []" "lastTimerId page_x1 = 0" "containers page_x1 = [(''#x'', [0])]"
proof -
  have "querySelector (config_container config_x) page_x = Some []"
    by (simp add: config_x_def page_x_def querySelector_def)
  from createVerticalTabs_found [OF this]
  show "timers page_x1 = []" "lastTimerId page_x1 = 0" "containers page_x1 = [(''#x'', [0])]"
    by (simp_all add: page_x1_def page_x_def config_x_def)
qed

lemma page_x1_tabs: "querySelectorAll [0] page_x1 = tabs_x"
proof -
  have ok: "widget_ok Number_of_digits (widgets page_x1 ! 0)"
    by (simp add: page_x1_widgets widget_ok_selectTab example_widget_ok)
  show ?thesis
    by (simp add: querySelectorAll_single [OF ok])
      (simp add: page_x1_widgets example_tabItems_length tabs_x_def upt_rec)
qed

lemma example_started: "autoCycleTabs ''#x'' (Some 3000) page_x1 = (Some driver_x, page_x2)"
proof -
  have q: "querySelector ''#x'' page_x1 = Some [0]"
    by (simp add: querySelector_def page_x1_fields)
  have ne: "querySelectorAll [0] page_x1 \<noteq> []"
    by (simp add: page_x1_tabs tabs_x_def)
  show ?thesis
    by (simp add: autoCycleTabs_started [OF q ne] page_x1_tabs page_x1_fields driver_x_def
        page_x2_def)
qed

lemma page_x1_timers_ok: "timers_ok page_x1"
  by (simp add: timers_ok_def page_x1_fields)

theorem cleanup_is_not_permanent_witness:
  "autoCycleTabs ''#x'' (Some 3000) page_x1 = (Some driver_x, page_x2)
   \<and> timers page_x2 = [\<lparr>timer_id = 1, delay = 3000, callback = tabs_x\<rparr>]
   \<and> timers (snd (foldl (driver_step Number_of_digits) (driver_x, page_x2) [Cleanup])) = []
   \<and> intervalId (fst (foldl (driver_step Number_of_digits) (driver_x, page_x2) [Cleanup])) = Some 1
   \<and> intervalId (fst (foldl (driver_step Number_of_digits) (driver_x, page_x2)
                         [Cleanup, MouseEnter])) = None
   \<and> timers (snd (foldl (driver_step Number_of_digits) (driver_x, page_x2)
                     [Cleanup, MouseEnter, MouseLeave]))
       = [\<lparr>timer_id = 2, delay = 3000, callback = tabs_x\<rparr>]
   \<and> intervalId (fst (foldl (driver_step Number_of_digits) (driver_x, page_x2)
                         [Cleanup, MouseEnter, MouseLeave])) = Some 2"
  using cleanup_is_not_permanent [OF example_started page_x1_timers_ok, of Number_of_digits,
      unfolded Let_def] example_started
  by (simp add: page_x1_fields driver_x_def)

subsection \<open>Hover pause and resume\<close>

lemma tabUL_onclick_timers:
  "timers (tabUL_onclick Number wi ev w) = timers w"
  "lastTimerId (tabUL_onclick Number wi ev w) = lastTimerId w"
  by (simp_all add: tabUL_onclick_def Let_def split: option.splits)

lemma dispatch_timers:
  "timers (foldl (\<lambda>w' l. if l = ''click'' then tabUL_onclick Number wi ev w' else w') w ls)
     = timers w
   \<and> lastTimerId (foldl (\<lambda>w' l. if l = ''click'' then tabUL_onclick Number wi ev w' else w') w ls)
     = lastTimerId w"
  by (induction ls arbitrary: w) (simp_all add: tabUL_onclick_timers)

lemma click_timers:
  "timers (click Number r w) = timers w" "lastTimerId (click Number r w) = lastTimerId w"
  by (cases r; simp add: click_def Let_def dispatch_timers)+

lemma fire_timers:
  "timers (fire Number i w) = timers w" "lastTimerId (fire Number i w) = lastTimerId w"
  by (auto simp: fire_def cycleTabs_def Let_def click_timers split: option.splits sum.splits
      if_splits)

lemma driver_invI:
  assumes "distinct (map timer_id (timers w))"
    and "\<forall>t\<in>set (timers w). timer_id t \<le> lastTimerId w"
    and "L \<le> lastTimerId w"
    and "filter (\<lambda>t. timer_id t \<le> L) (timers w) = ts0"
    and "\<forall>t\<in>set (timers w). L < timer_id t \<longrightarrow> intervalId d = Some (timer_id t)"
    and "\<forall>i. intervalId d = Some i \<longrightarrow> L < i"
  shows "driver_inv L ts0 (d, w)"
  unfolding driver_inv_def timers_ok_def prod.case
  using assms by (intro conjI)

lemma driver_invD:
  assumes "driver_inv L ts0 (d, w)"
  shows "distinct (map timer_id (timers w))"
    and "\<forall>t\<in>set (timers w). timer_id t \<le> lastTimerId w"
    and "L \<le> lastTimerId w"
    and "filter (\<lambda>t. timer_id t \<le> L) (timers w) = ts0"
    and "\<forall>t\<in>set (timers w). L < timer_id t \<longrightarrow> intervalId d = Some (timer_id t)"
    and "\<forall>i. intervalId d = Some i \<longrightarrow> L < i"
  using assms unfolding driver_inv_def timers_ok_def prod.case by blast+

lemma driver_inv_cleared:
  assumes inv: "driver_inv L ts0 (d, w)" and i: "intervalId d = Some i"
    and d': "intervalId d' = None \<or> intervalId d' = Some i"
  shows "driver_inv L ts0 (d', w\<lparr>timers := filter (\<lambda>t. timer_id t \<noteq> i) (timers w)\<rparr>)"
proof (rule driver_invI)
  let ?ts = "filter (\<lambda>t. timer_id t \<noteq> i) (timers w)"
  note ok = driver_invD(1,2) [OF inv] and L = driver_invD(3) [OF inv]
    and old = driver_invD(4) [OF inv] and own = driver_invD(5) [OF inv]
    and later = driver_invD(6) [OF inv]
  have Li: "L < i"
    using later i by simp
  show "distinct (map timer_id (timers (w\<lparr>timers := ?ts\<rparr>)))"
    using ok(1) by (simp add: distinct_map_filter)
  show "\<forall>t\<in>set (timers (w\<lparr>timers := ?ts\<rparr>)). timer_id t \<le> lastTimerId (w\<lparr>timers := ?ts\<rparr>)"
    using ok(2) by simp
  show "L \<le> lastTimerId (w\<lparr>timers := ?ts\<rparr>)"
    using L by simp
  have "filter (\<lambda>t. timer_id t \<le> L) ?ts = filter (\<lambda>t. timer_id t \<le> L) (timers w)"
    unfolding filter_filter by (rule filter_cong [OF refl]) (use Li in auto)
  then show "filter (\<lambda>t. timer_id t \<le> L) (timers (w\<lparr>timers := ?ts\<rparr>)) = ts0"
    using old by simp
  show "\<forall>t\<in>set (timers (w\<lparr>timers := ?ts\<rparr>)). L < timer_id t \<longrightarrow> intervalId d' = Some (timer_id t)"
    using own i by auto
  show "\<forall>j. intervalId d' = Some j \<longrightarrow> L < j"
    using d' Li by auto
qed

lemma driver_inv_restart:
  assumes inv: "driver_inv L ts0 (d, w)" and i: "intervalId d = None"
  shows "driver_inv L ts0
           (d\<lparr>intervalId := Some (Suc (lastTimerId w))\<rparr>,
            w\<lparr>timers := timers w @
                 [\<lparr>timer_id = Suc (lastTimerId w), delay = driver_interval d, callback = driver_tabs d\<rparr>],
              lastTimerId := Suc (lastTimerId w)\<rparr>)"
proof (rule driver_invI)
  let ?n = "Suc (lastTimerId w)"
  let ?t = "\<lparr>timer_id = ?n, delay = driver_interval d, callback = driver_tabs d\<rparr>"
  let ?w = "w\<lparr>timers := timers w @ [?t], lastTimerId := ?n\<rparr>"
  let ?d = "d\<lparr>intervalId := Some ?n\<rparr>"
  note ok = driver_invD(1,2) [OF inv] and L = driver_invD(3) [OF inv]
    and old = driver_invD(4) [OF inv] and own = driver_invD(5) [OF inv]
  have none: "\<forall>t\<in>set (timers w). timer_id t \<le> L"
    using own i by fastforce
  have fresh: "?n \<notin> timer_id ` set (timers w)"
    using ok(2) by fastforce
  show "distinct (map timer_id (timers ?w))"
    using ok(1) fresh by simp
  show "\<forall>t\<in>set (timers ?w). timer_id t \<le> lastTimerId ?w"
    using ok(2) by (simp add: le_SucI)
  show "L \<le> lastTimerId ?w"
    using L by simp
  show "filter (\<lambda>t. timer_id t \<le> L) (timers ?w) = ts0"
    using old L by simp
  show "\<forall>t\<in>set (timers ?w). L < timer_id t \<longrightarrow> intervalId ?d = Some (timer_id t)"
    using none by auto
  show "\<forall>j. intervalId ?d = Some j \<longrightarrow> L < j"
    using L by simp
qed

lemma driver_inv_fire:
  assumes "driver_inv L ts0 (d, w)"
  shows "driver_inv L ts0 (d, fire Number i w)"
  using assms unfolding driver_inv_def timers_ok_def prod.case fire_timers .

lemma driver_inv_reset:
  assumes "driver_inv L ts0 (d, w)" and "intervalId d = None"
  shows "driver_inv L ts0 (d\<lparr>intervalId := None\<rparr>, w)"
proof -
  have "d\<lparr>intervalId := None\<rparr> = d"
    using assms(2) by (cases d) simp
  then show ?thesis
    using assms(1) by simp
qed

lemma driver_inv_step:
  assumes "driver_inv L ts0 (d, w)"
  shows "driver_inv L ts0 (driver_step Number (d, w) ev)"
proof (cases ev)
  case MouseEnter
  show ?thesis
  proof (cases "intervalId d")
    case None
    have "driver_inv L ts0 (d\<lparr>intervalId := None\<rparr>, w)"
      using assms None by (rule driver_inv_reset)
    then show ?thesis
      using MouseEnter None by (simp add: mouseenter_def clearInterval_def)
  next
    case (Some i)
    from driver_inv_cleared [OF assms Some, of "d\<lparr>intervalId := None\<rparr>"] show ?thesis
      using MouseEnter Some by (simp add: mouseenter_def clearInterval_def)
  qed
next
  case MouseLeave
  show ?thesis
  proof (cases "falsy (intervalId d)")
    case False
    then show ?thesis
      using assms MouseLeave by (simp add: mouseleave_def)
  next
    case True
    note later = driver_invD(6) [OF assms]
    have "intervalId d = None"
    proof (cases "intervalId d")
      case None
      then show ?thesis .
    next
      case (Some i)
      then have "i = 0" using True by (simp add: falsy_def)
      moreover have "L < i" using later Some by simp
      ultimately show ?thesis by simp
    qed
    from driver_inv_restart [OF assms this] show ?thesis
      using MouseLeave True by (simp add: mouseleave_def setInterval_def Let_def)
  qed
next
  case Cleanup
  show ?thesis
  proof (cases "intervalId d")
    case None
    then show ?thesis
      using assms Cleanup by (simp add: cleanup_def falsy_def)
  next
    case (Some i)
    show ?thesis
    proof (cases "falsy (intervalId d)")
      case True
      then show ?thesis
        using assms Cleanup by (simp add: cleanup_def)
    next
      case False
      from driver_inv_cleared [OF assms Some, of d] show ?thesis
        using Cleanup Some False by (simp add: cleanup_def clearInterval_def)
    qed
  qed
next
  case (TimerDue i)
  then show ?thesis
    using driver_inv_fire [OF assms] by simp
qed

lemma driver_inv_run:
  "driver_inv L ts0 s \<Longrightarrow> driver_inv L ts0 (foldl (driver_step Number) s evs)"
proof (induction evs arbitrary: s)
  case Nil
  then show ?case by simp
next
  case (Cons ev evs)
  obtain d w where s: "s = (d, w)"
    by (cases s)
  have "driver_inv L ts0 (driver_step Number s ev)"
    using Cons.prems driver_inv_step [of L ts0 d w Number ev] s by simp
  from Cons.IH [OF this] show ?case by simp
qed

lemma same_key_at_most_one:
  "distinct (map f xs) \<Longrightarrow> \<forall>x\<in>set xs. P x \<longrightarrow> f x = c \<Longrightarrow> length (filter P xs) \<le> 1"
proof (induction xs)
  case Nil
  then show ?case by simp
next
  case (Cons x xs)
  show ?case
  proof (cases "P x")
    case False
    then show ?thesis using Cons by simp
  next
    case True
    then have "f x = c" using Cons.prems(2) by simp
    then have "\<forall>y\<in>set xs. \<not> P y"
      using Cons.prems by (metis distinct.simps(2) image_eqI list.set_intros(2) list.simps(9) set_map)
    then have "filter P xs = []"
      by (simp add: filter_empty_conv)
    then show ?thesis using True by simp
  qed
qed

text \<open>
  The driver of the TypeScript source: whatever sequence of pointer-enter, pointer-leave,
  cleanup and timer events follows its start, the timers that ran before it are
  untouched and at most one timer of its own is running.
\<close>

lemma hover_at_most_one_timer:
  assumes "autoCycleTabs sel ms w = (Some d, w1)" and "timers_ok w"
  shows "filter (\<lambda>t. timer_id t \<le> lastTimerId w)
           (timers (snd (foldl (driver_step Number) (d, w1) evs))) = timers w
       \<and> length (filter (\<lambda>t. lastTimerId w < timer_id t)
                   (timers (snd (foldl (driver_step Number) (d, w1) evs)))) \<le> 1"
proof -
  let ?L = "lastTimerId w"
  note s = autoCycleTabs_Some [OF assms(1)]
  have old: "filter (\<lambda>t. timer_id t \<le> ?L) (timers w) = timers w"
    using assms(2) by (auto simp: timers_ok_def intro!: filter_True)
  have fresh: "Suc ?L \<notin> timer_id ` set (timers w)"
    using assms(2) by (fastforce simp: timers_ok_def)
  have "driver_inv ?L (timers w) (d, w1)"
  proof (rule driver_invI)
    show "distinct (map timer_id (timers w1))"
      using assms(2) fresh by (simp add: s timers_ok_def)
    show "\<forall>t\<in>set (timers w1). timer_id t \<le> lastTimerId w1"
      using assms(2) by (simp add: s timers_ok_def le_SucI)
    show "?L \<le> lastTimerId w1"
      by (simp add: s)
    show "filter (\<lambda>t. timer_id t \<le> ?L) (timers w1) = timers w"
      using old by (simp add: s)
    show "\<forall>t\<in>set (timers w1). ?L < timer_id t \<longrightarrow> intervalId d = Some (timer_id t)"
      using assms(2) by (auto simp: s timers_ok_def)
    show "\<forall>i. intervalId d = Some i \<longrightarrow> ?L < i"
      by (simp add: s)
  qed
  then have inv: "driver_inv ?L (timers w) (foldl (driver_step Number) (d, w1) evs)"
    by (rule driver_inv_run)
  obtain d' w' where r: "foldl (driver_step Number) (d, w1) evs = (d', w')"
    by (cases "foldl (driver_step Number) (d, w1) evs")
  have inv': "driver_inv ?L (timers w) (d', w')"
    using inv r by simp
  note a = driver_invD(4) [OF inv'] and b = driver_invD(1) [OF inv'] and c = driver_invD(5) [OF inv']
  have "length (filter (\<lambda>t. ?L < timer_id t) (timers w')) \<le> 1"
  proof (cases "intervalId d'")
    case None
    then have "filter (\<lambda>t. ?L < timer_id t) (timers w') = []"
      using c by (auto simp: filter_empty_conv)
    then show ?thesis by simp
  next
    case (Some i)
    show ?thesis
      by (rule same_key_at_most_one [OF b, of _ i]) (use c Some in auto)
  qed
  then show ?thesis
    using a r by simp
qed


text \<open>
  C7 on the driver of version 1.0.0 (src/lv-vertical-tabs.js): its pointer-enter listener
  clears the timer without resetting \<open>intervalId\<close>, and its pointer-leave listener
  starts a timer unconditionally. On the example page, a pointer-leave that is not
  preceded by a pointer-enter (the pointer was inside the container when the driver
  started) leaves two repeating timers running, and the pointer-enter that follows stops
  only the later one, so the tabs keep cycling under the pointer. The driver of the
  TypeScript source keeps the single timer on the same pointer-leave.
\<close>

theorem hover_v1_runs_two_timers:
  "autoCycleTabs_v1 ''#x'' (Some 3000) page_x1 = (Some driver_x, page_x2)
   \<and> timers page_x2 = [\<lparr>timer_id = 1, delay = 3000, callback = tabs_x\<rparr>]
   \<and> timers (snd (mouseleave_v1 driver_x page_x2))
       = [\<lparr>timer_id = 1, delay = 3000, callback = tabs_x\<rparr>,
          \<lparr>timer_id = 2, delay = 3000, callback = tabs_x\<rparr>]
   \<and> timers (snd (mouseenter_v1 (fst (mouseleave_v1 driver_x page_x2))
                     (snd (mouseleave_v1 driver_x page_x2))))
       = [\<lparr>timer_id = 1, delay = 3000, callback = tabs_x\<rparr>]
   \<and> timers (snd (mouseleave driver_x page_x2))
       = [\<lparr>timer_id = 1, delay = 3000, callback = tabs_x\<rparr>]"
proof -
  have "autoCycleTabs_v1 ''#x'' (Some 3000) page_x1 = autoCycleTabs ''#x'' (Some 3000) page_x1"
    by (simp add: autoCycleTabs_v1_def autoCycleTabs_def)
  then have a: "autoCycleTabs_v1 ''#x'' (Some 3000) page_x1 = (Some driver_x, page_x2)"
    by (simp add: example_started)
  have l: "mouseleave_v1 driver_x page_x2 =
      (driver_x\<lparr>intervalId := Some 2\<rparr>,
       page_x2\<lparr>timers := [\<lparr>timer_id = 1, delay = 3000, callback = tabs_x\<rparr>,
                          \<lparr>timer_id = 2, delay = 3000, callback = tabs_x\<rparr>],
              lastTimerId := 2\<rparr>)"
    by (simp add: mouseleave_v1_def setInterval_def Let_def page_x2_def driver_x_def)
  show ?thesis
    by (simp add: a l mouseenter_v1_def clearInterval_def)
      (simp add: page_x2_def mouseleave_def falsy_def driver_x_def)
qed

end
